theory Spec2Isabelle
  imports Main "HOL-Library.Sublist"
begin

section \<open>JavaScript strings\<close>

text \<open>
  A JavaScript string is a sequence of UTF-16 code units; a code unit is modelled as a
  natural number. \<open>lit\<close> turns an ASCII literal of the source into such a sequence.
\<close>

type_synonym jstring = "nat list"

definition lit :: "string \<Rightarrow> jstring" where
  "lit s = map of_char s"

text \<open>
  The code units that \<^verbatim>\<open>String.prototype.trim\<close> removes: the WhiteSpace and
  LineTerminator productions of ECMAScript (TAB, LF, VT, FF, CR, SP, NBSP, the Unicode
  space separators, LS, PS and the byte order mark).
\<close>

definition is_ws :: "nat \<Rightarrow> bool" where
  "is_ws c = (c \<in> {9, 10, 11, 12, 13, 32, 160, 5760, 8232, 8233, 8239, 8287, 12288, 65279}
              \<or> (8192 \<le> c \<and> c \<le> 8202))"

definition trimStart :: "jstring \<Rightarrow> jstring" where
  "trimStart s = dropWhile is_ws s"

definition trimEnd :: "jstring \<Rightarrow> jstring" where
  "trimEnd s = rev (dropWhile is_ws (rev s))"

definition trim :: "jstring \<Rightarrow> jstring" where
  "trim s = trimEnd (trimStart s)"

definition startsWith :: "jstring \<Rightarrow> jstring \<Rightarrow> bool" where
  "startsWith s p = (take (length p) s = p)"

definition endsWith :: "jstring \<Rightarrow> jstring \<Rightarrow> bool" where
  "endsWith s p = (length p \<le> length s \<and> drop (length s - length p) s = p)"

text \<open>\<^verbatim>\<open>s.indexOf(c)\<close> for a pattern of one code unit: the first position, or -1.\<close>

fun indexOf :: "jstring \<Rightarrow> nat \<Rightarrow> int" where
  "indexOf [] c = - 1"
| "indexOf (x # xs) c =
     (if x = c then 0 else (let i = indexOf xs c in if i = - 1 then - 1 else i + 1))"

text \<open>\<^verbatim>\<open>s.slice(a, b)\<close>: negative positions count from the end, both are clamped.\<close>

definition slice :: "jstring \<Rightarrow> int \<Rightarrow> int \<Rightarrow> jstring" where
  "slice s a b =
     (let len = int (length s);
          from = (if a < 0 then max (len + a) 0 else min a len);
          to = (if b < 0 then max (len + b) 0 else min b len)
      in take (nat (to - from)) (drop (nat from) s))"

text \<open>\<^verbatim>\<open>s.slice(a)\<close>: the end defaults to the length.\<close>

definition slice_from :: "jstring \<Rightarrow> int \<Rightarrow> jstring" where
  "slice_from s a = slice s a (int (length s))"

text \<open>\<^verbatim>\<open>s.split(sep)\<close> for a separator of one code unit; the empty string gives one empty piece.\<close>

fun split_on :: "nat \<Rightarrow> jstring \<Rightarrow> jstring list" where
  "split_on sep [] = [[]]"
| "split_on sep (c # cs) =
     (if c = sep then [] # split_on sep cs
      else (case split_on sep cs of [] \<Rightarrow> [[c]] | l # ls \<Rightarrow> (c # l) # ls))"

definition includes_str :: "jstring \<Rightarrow> jstring \<Rightarrow> bool" where
  "includes_str s p = sublist p s"

section \<open>Structured data\<close>

text \<open>
  A parsed JSON value. A number is kept as the text that JavaScript prints for it
  (\<^verbatim>\<open>Infinity\<close> and \<^verbatim>\<open>-Infinity\<close> for a literal beyond the range of a double, such as
  \<^verbatim>\<open>1e400\<close>); an object is the list of its properties in enumeration order.
\<close>

datatype json =
    JNull
  | JBool bool
  | JNum jstring
  | JStr jstring
  | JArr "json list"
  | JObj "(jstring \<times> json) list"

text \<open>
  \<^verbatim>\<open>Record<string, string>\<close> built from \<^verbatim>\<open>{}\<close>: an ordinary object. Assigning a string to
  the property \<^verbatim>\<open>__proto__\<close> of an ordinary object runs the inherited setter, which ignores
  a value that is neither an object nor null, so no own property is created.
\<close>

type_synonym record_obj = "jstring \<rightharpoonup> jstring"

definition obj_set :: "record_obj \<Rightarrow> jstring \<Rightarrow> jstring \<Rightarrow> record_obj" where
  "obj_set env key v = (if key = lit ''__proto__'' then env else env(key \<mapsto> v))"

section \<open>The outside world\<close>

text \<open>The external commands the tool starts through the shell, one constructor per command line.\<close>

datatype cmd =
    BunVersion                        \<comment> \<open>\<^verbatim>\<open>bun --version\<close>\<close>
  | GhAuthStatus                      \<comment> \<open>\<^verbatim>\<open>gh auth status\<close>\<close>
  | GhApiUserLogin                    \<comment> \<open>\<^verbatim>\<open>gh api user --jq '.login'\<close>\<close>
  | Which jstring                     \<comment> \<open>\<^verbatim>\<open>which ${cmd}\<close>\<close>
  | VercelWhoami                      \<comment> \<open>\<^verbatim>\<open>vercel whoami\<close>\<close>
  | BunxVercelWhoami                  \<comment> \<open>\<^verbatim>\<open>bunx vercel whoami\<close>\<close>
  | CreateConvex jstring              \<comment> \<open>\<^verbatim>\<open>bunx create-convex@latest ${projectName} -t tanstack-start\<close>\<close>
  | BunAddNitro                       \<comment> \<open>\<^verbatim>\<open>bun add nitro@npm:nitro-nightly@latest\<close>\<close>
  | BunInstall                        \<comment> \<open>\<^verbatim>\<open>bun install\<close>\<close>
  | GitInit                           \<comment> \<open>\<^verbatim>\<open>git init\<close>\<close>
  | GitAddAll                         \<comment> \<open>\<^verbatim>\<open>git add .\<close>\<close>
  | GitCommit                         \<comment> \<open>\<^verbatim>\<open>git commit -m "Initial commit: Convex + TanStack Start + Vercel"\<close>\<close>
  | GhRepoCreate jstring              \<comment> \<open>\<^verbatim>\<open>gh repo create ${projectName} --private --source=. --remote=origin --push\<close>\<close>
  | ConvexDevOnce                     \<comment> \<open>\<^verbatim>\<open>bunx convex dev --once\<close>\<close>
  | VercelLink                        \<comment> \<open>\<^verbatim>\<open>bunx vercel link --yes\<close>\<close>
  | VercelEnvAdd jstring jstring jstring
      \<comment> \<open>value, name, env: \<^verbatim>\<open>echo ${value} | bunx vercel env add ${name} ${env} --force\<close>\<close>

text \<open>
  Everything the process does to, or learns from, its surroundings is one event of a trace,
  oldest first. An event carries what the surroundings answered: \<open>None\<close> is a failure
  (a command with a non-zero exit status, a file that cannot be read or parsed).
\<close>

datatype event =
    Ran cmd "jstring option"          \<comment> \<open>a shell command and its standard output\<close>
  | Exists jstring bool               \<comment> \<open>\<^verbatim>\<open>existsSync(path)\<close>\<close>
  | ReadText jstring "jstring option" \<comment> \<open>\<^verbatim>\<open>Bun.file(path).text()\<close>\<close>
  | ReadJson jstring "json option"    \<comment> \<open>\<^verbatim>\<open>Bun.file(path).json()\<close>\<close>
  | Wrote jstring jstring bool        \<comment> \<open>\<^verbatim>\<open>Bun.write(path, content)\<close> and whether it succeeded\<close>
  | Chdir jstring bool                \<comment> \<open>\<^verbatim>\<open>process.chdir(path)\<close> and whether it succeeded\<close>
  | Log jstring                       \<comment> \<open>\<^verbatim>\<open>console.log(message)\<close>\<close>
  | Asked jstring jstring             \<comment> \<open>the question of \<^verbatim>\<open>rl.question\<close> and the line entered\<close>

type_synonym trace = "event list"

text \<open>
  The surroundings: what each request is answered with, given everything that happened before.
\<close>

record ext =
  x_run :: "trace \<Rightarrow> cmd \<Rightarrow> jstring option"
  x_exists :: "trace \<Rightarrow> jstring \<Rightarrow> bool"
  x_text :: "trace \<Rightarrow> jstring \<Rightarrow> jstring option"
  x_json :: "trace \<Rightarrow> jstring \<Rightarrow> json option"
  x_write :: "trace \<Rightarrow> jstring \<Rightarrow> jstring \<Rightarrow> bool"
  x_chdir :: "trace \<Rightarrow> jstring \<Rightarrow> bool"
  x_answer :: "trace \<Rightarrow> jstring \<Rightarrow> jstring"
  x_getenv :: "jstring \<Rightarrow> jstring option"
  x_cwd :: "trace \<Rightarrow> jstring"
  x_resolve :: "jstring list \<Rightarrow> jstring"

text \<open>
  How a piece of the program ends: with a value, by \<^verbatim>\<open>process.exit(n)\<close>, or by an exception.
\<close>

datatype 'a result = Ret 'a | Exit nat | Throw

type_synonym 'a run = "'a result \<times> trace"

text \<open>Sequencing: the rest runs on the value, after the trace so far; an exit or an exception skips it.\<close>

definition and_then :: "'a run \<Rightarrow> ('a \<Rightarrow> trace \<Rightarrow> 'b run) \<Rightarrow> 'b run" where
  "and_then r k =
     (case r of (Ret x, t) \<Rightarrow> k x t | (Exit n, t) \<Rightarrow> (Exit n, t) | (Throw, t) \<Rightarrow> (Throw, t))"

text \<open>\<^verbatim>\<open>try { ... } catch { ... }\<close>: only an exception reaches the handler, an exit does not.\<close>

definition try_catch :: "'a run \<Rightarrow> (trace \<Rightarrow> 'a run) \<Rightarrow> 'a run" where
  "try_catch r h = (case r of (Throw, t) \<Rightarrow> h t | _ \<Rightarrow> r)"

definition sh :: "ext \<Rightarrow> cmd \<Rightarrow> trace \<Rightarrow> jstring run" where
  "sh E c t =
     (case x_run E t c of
        None \<Rightarrow> (Throw, t @ [Ran c None])
      | Some out \<Rightarrow> (Ret out, t @ [Ran c (Some out)]))"

definition console_log :: "jstring \<Rightarrow> trace \<Rightarrow> trace" where
  "console_log m t = t @ [Log m]"

definition file_text :: "ext \<Rightarrow> jstring \<Rightarrow> trace \<Rightarrow> jstring run" where
  "file_text E p t =
     (case x_text E t p of
        None \<Rightarrow> (Throw, t @ [ReadText p None])
      | Some content \<Rightarrow> (Ret content, t @ [ReadText p (Some content)]))"

section \<open>Utility functions\<close>

text \<open>The body of the loop of \<^verbatim>\<open>readEnvFile\<close>, for one line.\<close>

definition readEnvLine :: "record_obj \<Rightarrow> jstring \<Rightarrow> record_obj" where
  "readEnvLine env line =
     (let trimmed = trim line in
      if trimmed \<noteq> [] \<and> \<not> startsWith trimmed (lit ''#'') then
        (let eqIndex = indexOf trimmed 61 in
         if eqIndex \<noteq> - 1 then
           (let key = trim (slice trimmed 0 eqIndex);
                v = trim (slice_from trimmed (eqIndex + 1));
                v' = (if (startsWith v [34] \<and> endsWith v [34])
                         \<or> (startsWith v [39] \<and> endsWith v [39])
                      then slice v 1 (- 1) else v)
            in obj_set env key v')
         else env)
      else env)"

definition readEnvFile :: "ext \<Rightarrow> jstring \<Rightarrow> trace \<Rightarrow> record_obj run" where
  "readEnvFile E filePath t =
     try_catch
       (and_then (file_text E filePath t)
          (\<lambda>content t'. (Ret (foldl readEnvLine Map.empty (split_on 10 content)), t')))
       (\<lambda>t'. (Ret Map.empty, t'))"


text \<open>What a call of \<^verbatim>\<open>readEnvFile\<close> returned for a key, if it returned a map.\<close>

definition value_of :: "record_obj run \<Rightarrow> jstring \<Rightarrow> jstring option" where
  "value_of r k = (case fst r of Ret m \<Rightarrow> m k | Exit n \<Rightarrow> None | Throw \<Rightarrow> None)"

subsection \<open>Terminal output\<close>

definition esc :: "string \<Rightarrow> jstring" where
  "esc s = 27 # lit s"

definition col_reset :: jstring where "col_reset = esc ''[0m''"
definition col_red :: jstring where "col_red = esc ''[31m''"
definition col_green :: jstring where "col_green = esc ''[32m''"
definition col_yellow :: jstring where "col_yellow = esc ''[33m''"
definition col_blue :: jstring where "col_blue = esc ''[34m''"
definition col_bold :: jstring where "col_bold = esc ''[1m''"

definition c_error :: "jstring \<Rightarrow> jstring" where
  "c_error msg = col_red @ [0x2717] @ col_reset @ lit '' '' @ msg"

definition c_success :: "jstring \<Rightarrow> jstring" where
  "c_success msg = col_green @ [0x2713] @ col_reset @ lit '' '' @ msg"

definition c_warning :: "jstring \<Rightarrow> jstring" where
  "c_warning msg = col_yellow @ [0x26A0] @ col_reset @ lit '' '' @ msg"

definition c_info :: "jstring \<Rightarrow> jstring" where
  "c_info msg = col_blue @ [0x25B8] @ col_reset @ lit '' '' @ msg"

definition rule60 :: jstring where
  "rule60 = replicate 60 0x2501"

definition c_header :: "jstring \<Rightarrow> jstring" where
  "c_header msg =
     [10] @ col_blue @ rule60 @ col_reset @ [10]
     @ col_blue @ lit ''  '' @ msg @ col_reset @ [10]
     @ col_blue @ rule60 @ col_reset @ [10]"

text \<open>\<^verbatim>\<open>prompt\<close>: the question is shown, one line is read and returned trimmed.\<close>

definition prompt :: "ext \<Rightarrow> jstring \<Rightarrow> trace \<Rightarrow> jstring run" where
  "prompt E question t =
     (let answer = x_answer E t question in (Ret (trim answer), t @ [Asked question answer]))"

subsection \<open>Pushing one variable to the deployment target\<close>

text \<open>The \<^verbatim>\<open>for\<close> loop of \<^verbatim>\<open>addVercelEnvVar\<close>: a failing command leaves the loop by its exception.\<close>

fun push_loop :: "ext \<Rightarrow> jstring \<Rightarrow> jstring \<Rightarrow> jstring list \<Rightarrow> trace \<Rightarrow> unit run" where
  "push_loop E name v [] t = (Ret (), t)"
| "push_loop E name v (env # envs) t =
     (case sh E (VercelEnvAdd v name env) t of
        (Ret out, t') \<Rightarrow> push_loop E name v envs t'
      | (Exit n, t') \<Rightarrow> (Exit n, t')
      | (Throw, t') \<Rightarrow> (Throw, t'))"

definition addVercelEnvVar :: "ext \<Rightarrow> jstring \<Rightarrow> jstring \<Rightarrow> jstring list \<Rightarrow> trace \<Rightarrow> bool run" where
  "addVercelEnvVar E name v environments t =
     try_catch
       (and_then (push_loop E name v environments t) (\<lambda>u t'. (Ret True, t')))
       (\<lambda>t'. (Ret False, t'))"

section \<open>Prerequisite checks\<close>

record check_result =
  ok :: bool
  detail :: "jstring option"

text \<open>A template literal prints a missing value as \<^verbatim>\<open>undefined\<close>.\<close>

definition interpolate :: "jstring option \<Rightarrow> jstring" where
  "interpolate v = (case v of None \<Rightarrow> lit ''undefined'' | Some s \<Rightarrow> s)"

definition existsSync :: "ext \<Rightarrow> jstring \<Rightarrow> trace \<Rightarrow> bool \<times> trace" where
  "existsSync E p t = (x_exists E t p, t @ [Exists p (x_exists E t p)])"

definition file_json :: "ext \<Rightarrow> jstring \<Rightarrow> trace \<Rightarrow> json run" where
  "file_json E p t =
     (case x_json E t p of
        None \<Rightarrow> (Throw, t @ [ReadJson p None])
      | Some v \<Rightarrow> (Ret v, t @ [ReadJson p (Some v)]))"

text \<open>
  Reading a property whose name is no array index and is not inherited (\<^verbatim>\<open>accessToken\<close>,
  \<^verbatim>\<open>scripts\<close>): \<open>None\<close> is \<^verbatim>\<open>undefined\<close>; reading from \<^verbatim>\<open>null\<close> is a TypeError.
\<close>

definition get_prop :: "json \<Rightarrow> jstring \<Rightarrow> json option result" where
  "get_prop v k =
     (case v of
        JNull \<Rightarrow> Throw
      | JObj ps \<Rightarrow> Ret (map_of ps k)
      | JBool b \<Rightarrow> Ret None
      | JNum n \<Rightarrow> Ret None
      | JStr s \<Rightarrow> Ret None
      | JArr xs \<Rightarrow> Ret None)"

text \<open>
  The truth value of a condition: \<^verbatim>\<open>undefined\<close>, \<^verbatim>\<open>null\<close>, \<^verbatim>\<open>false\<close>, zero, \<^verbatim>\<open>NaN\<close> and the empty
  string are false.
\<close>

definition truthy :: "json option \<Rightarrow> bool" where
  "truthy v =
     (case v of
        None \<Rightarrow> False
      | Some JNull \<Rightarrow> False
      | Some (JBool b) \<Rightarrow> b
      | Some (JNum n) \<Rightarrow> n \<noteq> lit ''0'' \<and> n \<noteq> lit ''NaN''
      | Some (JStr s) \<Rightarrow> s \<noteq> []
      | Some (JArr xs) \<Rightarrow> True
      | Some (JObj ps) \<Rightarrow> True)"

definition commandExists :: "ext \<Rightarrow> jstring \<Rightarrow> trace \<Rightarrow> bool run" where
  "commandExists E c t =
     try_catch
       (and_then (sh E (Which c) t) (\<lambda>out t'. (Ret True, t')))
       (\<lambda>t'. (Ret False, t'))"

definition checkBun :: "ext \<Rightarrow> trace \<Rightarrow> check_result run" where
  "checkBun E t =
     try_catch
       (and_then (sh E BunVersion t)
          (\<lambda>result t'. (Ret \<lparr>ok = True, detail = Some (trim result)\<rparr>, t')))
       (\<lambda>t'. (Ret \<lparr>ok = False, detail = None\<rparr>, t'))"

definition checkGitHub :: "ext \<Rightarrow> trace \<Rightarrow> check_result run" where
  "checkGitHub E t =
     try_catch
       (and_then (sh E GhAuthStatus t) (\<lambda>out t'.
        and_then (sh E GhApiUserLogin t') (\<lambda>user t''.
        (Ret \<lparr>ok = True, detail = Some (trim user)\<rparr>, t''))))
       (\<lambda>t'. (Ret \<lparr>ok = False, detail = None\<rparr>, t'))"

text \<open>\<^verbatim>\<open>process.env.HOME || process.env.USERPROFILE || ""\<close>: the first that is set and not empty.\<close>

definition home_dir :: "ext \<Rightarrow> jstring" where
  "home_dir E =
     (case x_getenv E (lit ''HOME'') of
        Some h \<Rightarrow> if h \<noteq> [] then h else (case x_getenv E (lit ''USERPROFILE'') of Some u \<Rightarrow> u | None \<Rightarrow> [])
      | None \<Rightarrow> (case x_getenv E (lit ''USERPROFILE'') of Some u \<Rightarrow> u | None \<Rightarrow> []))"

definition checkConvex :: "ext \<Rightarrow> trace \<Rightarrow> check_result run" where
  "checkConvex E t =
     try_catch
       (let homeDir = home_dir E;
            configPath = x_resolve E [homeDir, lit ''.convex'', lit ''config.json''];
            (found, t1) = existsSync E configPath t
        in if \<not> found then (Ret \<lparr>ok = False, detail = None\<rparr>, t1)
           else and_then (file_json E configPath t1) (\<lambda>config t2.
                  (case get_prop config (lit ''accessToken'') of
                     Ret token \<Rightarrow>
                       if truthy token then (Ret \<lparr>ok = True, detail = None\<rparr>, t2)
                       else (Ret \<lparr>ok = False, detail = None\<rparr>, t2)
                   | Exit n \<Rightarrow> (Exit n, t2)
                   | Throw \<Rightarrow> (Throw, t2))))
       (\<lambda>t'. (Ret \<lparr>ok = False, detail = None\<rparr>, t'))"

definition checkVercel :: "ext \<Rightarrow> trace \<Rightarrow> check_result run" where
  "checkVercel E t =
     try_catch
       (and_then (commandExists E (lit ''vercel'') t) (\<lambda>installed t1.
          if installed then
            and_then (sh E VercelWhoami t1)
              (\<lambda>result t2. (Ret \<lparr>ok = True, detail = Some (trim result)\<rparr>, t2))
          else
            and_then (sh E BunxVercelWhoami t1)
              (\<lambda>result t2. (Ret \<lparr>ok = True, detail = Some (trim result)\<rparr>, t2))))
       (\<lambda>t'. (Ret \<lparr>ok = False, detail = None\<rparr>, t'))"

text \<open>
  The four report blocks of \<^verbatim>\<open>checkAllPrerequisites\<close>: each prints the outcome of one check
  and, in its failure branch, sets \<^verbatim>\<open>allGood\<close> to false.
\<close>

definition report_bun :: "check_result \<Rightarrow> bool \<times> trace \<Rightarrow> bool \<times> trace" where
  "report_bun bun s =
     (case s of (allGood, t) \<Rightarrow>
        if ok bun then
          (allGood,
           console_log (c_success (lit ''bun is installed (v'' @ interpolate (detail bun) @ lit '')'')) t)
        else
          (False,
           console_log ([10] @ lit ''  Install bun:'' @ [10]
                        @ lit ''    curl -fsSL https://bun.sh/install | bash'' @ [10])
             (console_log (c_error (lit ''bun is not installed'')) t)))"

definition report_gh :: "check_result \<Rightarrow> bool \<times> trace \<Rightarrow> bool \<times> trace" where
  "report_gh gh s =
     (case s of (allGood, t) \<Rightarrow>
        if ok gh then
          (allGood,
           console_log (c_success (lit ''GitHub CLI authenticated as: '' @ interpolate (detail gh))) t)
        else
          (False,
           console_log ([10] @ lit ''  To authenticate:'' @ [10] @ lit ''    gh auth login'' @ [10])
             (console_log (c_error (lit ''GitHub CLI not authenticated'')) t)))"

definition report_convex :: "check_result \<Rightarrow> bool \<times> trace \<Rightarrow> bool \<times> trace" where
  "report_convex convex s =
     (case s of (allGood, t) \<Rightarrow>
        if ok convex then
          (allGood, console_log (c_success (lit ''Convex CLI authenticated'')) t)
        else
          (False,
           console_log ([10] @ lit ''  To authenticate:'' @ [10] @ lit ''    bunx convex login'' @ [10])
             (console_log (c_error (lit ''Convex CLI not authenticated'')) t)))"

definition report_vercel :: "check_result \<Rightarrow> bool \<times> trace \<Rightarrow> bool \<times> trace" where
  "report_vercel vercel s =
     (case s of (allGood, t) \<Rightarrow>
        if ok vercel then
          (allGood,
           console_log (c_success (lit ''Vercel CLI authenticated as: '' @ interpolate (detail vercel))) t)
        else
          (False,
           console_log ([10] @ lit ''  To authenticate:'' @ [10] @ lit ''    bunx vercel login'' @ [10])
             (console_log (c_error (lit ''Vercel CLI not authenticated'')) t)))"

definition report_all :: "bool \<times> trace \<Rightarrow> bool run" where
  "report_all s =
     (case s of (allGood, t) \<Rightarrow>
        if \<not> allGood then
          (Ret allGood,
           console_log
             (c_error (lit ''Some prerequisites are missing. Please fix them and run again.''))
             (console_log [] t))
        else
          (Ret allGood,
           console_log (c_success (lit ''All prerequisites satisfied!'')) (console_log [] t)))"

definition checkAllPrerequisites :: "ext \<Rightarrow> trace \<Rightarrow> bool run" where
  "checkAllPrerequisites E t0 =
     and_then (checkBun E
        (console_log (c_info (lit ''Checking bun...''))
          (console_log (c_header (lit ''Checking Prerequisites'')) t0))) (\<lambda>bun t1.
     (case report_bun bun (True, t1) of (allGood1, t1') \<Rightarrow>
     and_then (checkGitHub E
        (console_log (c_info (lit ''Checking GitHub CLI (gh)...'')) t1')) (\<lambda>gh t2.
     (case report_gh gh (allGood1, t2) of (allGood2, t2') \<Rightarrow>
     and_then (checkConvex E
        (console_log (c_info (lit ''Checking Convex CLI...'')) t2')) (\<lambda>convex t3.
     (case report_convex convex (allGood2, t3) of (allGood3, t3') \<Rightarrow>
     and_then (checkVercel E
        (console_log (c_info (lit ''Checking Vercel CLI...'')) t3')) (\<lambda>vercel t4.
     report_all (report_vercel vercel (allGood3, t4)))))))))"

section \<open>Serialising structured data\<close>

text \<open>
  \<^verbatim>\<open>JSON.stringify(value, null, 2)\<close>, after the SerializeJSONProperty, QuoteJSONString,
  SerializeJSONObject and SerializeJSONArray operations of ECMAScript, for a value that
  came out of a JSON parser (every property is serialisable).
\<close>

definition hex_digit :: "nat \<Rightarrow> nat" where
  "hex_digit d = (if d < 10 then 48 + d else 87 + d)"

definition unicode_escape :: "nat \<Rightarrow> jstring" where
  "unicode_escape c =
     [92, 117, hex_digit (c div 4096 mod 16), hex_digit (c div 256 mod 16),
      hex_digit (c div 16 mod 16), hex_digit (c mod 16)]"

definition is_lead :: "nat \<Rightarrow> bool" where
  "is_lead c = (0xD800 \<le> c \<and> c \<le> 0xDBFF)"

definition is_trail :: "nat \<Rightarrow> bool" where
  "is_trail c = (0xDC00 \<le> c \<and> c \<le> 0xDFFF)"

fun quote_units :: "jstring \<Rightarrow> jstring" where
  "quote_units [] = []"
| "quote_units (c # cs) =
     (if c = 8 then [92, 98] @ quote_units cs
      else if c = 9 then [92, 116] @ quote_units cs
      else if c = 10 then [92, 110] @ quote_units cs
      else if c = 12 then [92, 102] @ quote_units cs
      else if c = 13 then [92, 114] @ quote_units cs
      else if c = 34 then [92, 34] @ quote_units cs
      else if c = 92 then [92, 92] @ quote_units cs
      else if c < 32 then unicode_escape c @ quote_units cs
      else if is_lead c then
        (case cs of
           [] \<Rightarrow> unicode_escape c
         | d # ds \<Rightarrow>
             if is_trail d then c # d # quote_units ds else unicode_escape c @ quote_units cs)
      else if is_trail c then unicode_escape c @ quote_units cs
      else c # quote_units cs)"

definition json_quote :: "jstring \<Rightarrow> jstring" where
  "json_quote s = [34] @ quote_units s @ [34]"

text \<open>
  SerializeJSONProperty prints a number that is not finite as \<^verbatim>\<open>null\<close>; these are the texts
  of the numbers that are not finite.
\<close>

definition finite_number :: "jstring \<Rightarrow> bool" where
  "finite_number n = (n \<noteq> lit ''Infinity'' \<and> n \<noteq> lit ''-Infinity'' \<and> n \<noteq> lit ''NaN'')"

text \<open>\<^verbatim>\<open>parts.join(sep)\<close>.\<close>

fun join :: "jstring \<Rightarrow> jstring list \<Rightarrow> jstring" where
  "join sep [] = []"
| "join sep [x] = x"
| "join sep (x # y # ys) = x @ sep @ join sep (y # ys)"

text \<open>The first argument is the indentation reached so far; the gap is two spaces.\<close>

fun stringify :: "jstring \<Rightarrow> json \<Rightarrow> jstring"
  and stringify_elems :: "jstring \<Rightarrow> json list \<Rightarrow> jstring list"
  and stringify_props :: "jstring \<Rightarrow> (jstring \<times> json) list \<Rightarrow> jstring list" where
  "stringify ind JNull = lit ''null''"
| "stringify ind (JBool b) = (if b then lit ''true'' else lit ''false'')"
| "stringify ind (JNum n) = (if finite_number n then n else lit ''null'')"
| "stringify ind (JStr s) = json_quote s"
| "stringify ind (JArr xs) =
     (if xs = [] then lit ''[]''
      else lit ''['' @ [10] @ (ind @ lit ''  '')
           @ join (lit '','' @ [10] @ (ind @ lit ''  '')) (stringify_elems (ind @ lit ''  '') xs)
           @ [10] @ ind @ lit '']'')"
| "stringify ind (JObj ps) =
     (if ps = [] then lit ''{}''
      else lit ''{'' @ [10] @ (ind @ lit ''  '')
           @ join (lit '','' @ [10] @ (ind @ lit ''  '')) (stringify_props (ind @ lit ''  '') ps)
           @ [10] @ ind @ lit ''}'')"
| "stringify_elems ind [] = []"
| "stringify_elems ind (x # xs) = stringify ind x # stringify_elems ind xs"
| "stringify_props ind [] = []"
| "stringify_props ind ((k, v) # ps) =
     (json_quote k @ lit '': '' @ stringify ind v) # stringify_props ind ps"

definition JSON_stringify2 :: "json \<Rightarrow> jstring" where
  "JSON_stringify2 v = stringify [] v"

section \<open>Project setup\<close>

definition nl_lines :: "jstring list \<Rightarrow> jstring" where
  "nl_lines ls = concat (map (\<lambda>l. l @ [10]) ls)"

definition VITE_CONFIG :: jstring where
  "VITE_CONFIG = nl_lines
     [lit ''import { tanstackStart } from '' @ [39] @ lit ''@tanstack/react-start/plugin/vite'' @ [39],
      lit ''import { defineConfig } from '' @ [39] @ lit ''vite'' @ [39],
      lit ''import tsConfigPaths from '' @ [39] @ lit ''vite-tsconfig-paths'' @ [39],
      lit ''import tailwindcss from '' @ [39] @ lit ''@tailwindcss/vite'' @ [39],
      lit ''import viteReact from '' @ [39] @ lit ''@vitejs/plugin-react'' @ [39],
      lit ''import { nitro } from '' @ [39] @ lit ''nitro/vite'' @ [39],
      [],
      lit ''export default defineConfig({'',
      lit ''  server: {'',
      lit ''    port: 3000,'',
      lit ''  },'',
      lit ''  plugins: ['',
      lit ''    tailwindcss(),'',
      lit ''    tsConfigPaths({'',
      lit ''      projects: ['' @ [39] @ lit ''./tsconfig.json'' @ [39] @ lit ''],'',
      lit ''    }),'',
      lit ''    tanstackStart(),'',
      lit ''    nitro(),'',
      lit ''    viteReact(),'',
      lit ''  ],'',
      lit ''})'']"

definition VERCEL_JSON :: jstring where
  "VERCEL_JSON = nl_lines
     [lit ''{'',
      lit ''  '' @ [34] @ lit ''$schema'' @ [34] @ lit '': '' @ [34] @ lit ''https://openapi.vercel.sh/vercel.json'' @ [34] @ lit '','',
      lit ''  '' @ [34] @ lit ''installCommand'' @ [34] @ lit '': '' @ [34] @ lit ''bun install'' @ [34] @ lit '','',
      lit ''  '' @ [34] @ lit ''buildCommand'' @ [34] @ lit '': '' @ [34] @ lit ''bunx convex deploy --cmd '' @ [39] @ lit ''bun run build'' @ [39, 34],
      lit ''}'']"

definition bun_write :: "ext \<Rightarrow> jstring \<Rightarrow> jstring \<Rightarrow> trace \<Rightarrow> unit run" where
  "bun_write E p content t =
     (if x_write E t p content then (Ret (), t @ [Wrote p content True])
      else (Throw, t @ [Wrote p content False]))"

definition process_chdir :: "ext \<Rightarrow> jstring \<Rightarrow> trace \<Rightarrow> unit run" where
  "process_chdir E p t =
     (if x_chdir E t p then (Ret (), t @ [Chdir p True]) else (Throw, t @ [Chdir p False]))"

subsection \<open>The manifest patch\<close>

text \<open>
  \<^verbatim>\<open>obj[key] = v\<close> on an object from the parser, for a key that is no array index: an
  existing property keeps its place, a new one comes last.
\<close>

fun upsert :: "(jstring \<times> json) list \<Rightarrow> jstring \<Rightarrow> json \<Rightarrow> (jstring \<times> json) list" where
  "upsert [] k v = [(k, v)]"
| "upsert ((k', v') # ps) k v = (if k' = k then (k, v) # ps else (k', v') # upsert ps k v)"

text \<open>
  \<^verbatim>\<open>target[key] = v\<close> in a module (strict mode), where \<open>target\<close> was read from a property:
  a TypeError on \<^verbatim>\<open>undefined\<close>, \<^verbatim>\<open>null\<close> and on a primitive value; on an array a named
  property is set, which serialisation leaves out.
\<close>

definition set_prop :: "json option \<Rightarrow> jstring \<Rightarrow> json \<Rightarrow> json result" where
  "set_prop target k v =
     (case target of
        None \<Rightarrow> Throw
      | Some JNull \<Rightarrow> Throw
      | Some (JBool b) \<Rightarrow> Throw
      | Some (JNum n) \<Rightarrow> Throw
      | Some (JStr s) \<Rightarrow> Throw
      | Some (JArr xs) \<Rightarrow> Ret (JArr xs)
      | Some (JObj ps) \<Rightarrow> Ret (JObj (upsert ps k v)))"

text \<open>
  One statement \<^verbatim>\<open>pkg.scripts[key] = v\<close>: the nested object is changed in place, so the
  manifest holds the changed object under the same property.
\<close>

definition set_script :: "json \<Rightarrow> jstring \<Rightarrow> jstring \<Rightarrow> json result" where
  "set_script pkg k v =
     (case get_prop pkg (lit ''scripts'') of
        Throw \<Rightarrow> Throw
      | Exit n \<Rightarrow> Exit n
      | Ret scripts \<Rightarrow>
          (case set_prop scripts k (JStr v) of
             Throw \<Rightarrow> Throw
           | Exit n \<Rightarrow> Exit n
           | Ret scripts' \<Rightarrow>
               (case pkg of
                  JObj ps \<Rightarrow> Ret (JObj (upsert ps (lit ''scripts'') scripts'))
                | JNull \<Rightarrow> Throw
                | JBool b \<Rightarrow> Throw
                | JNum n \<Rightarrow> Throw
                | JStr s \<Rightarrow> Throw
                | JArr xs \<Rightarrow> Throw)))"

definition script_dev :: jstring where
  "script_dev = lit ''bunx convex dev --once && concurrently -r bun:dev:web bun:dev:convex''"

definition script_dev_convex :: jstring where
  "script_dev_convex = lit ''bunx convex dev''"

definition script_start :: jstring where
  "script_start = lit ''bun .output/server/index.mjs''"

definition patch_scripts :: "json \<Rightarrow> json result" where
  "patch_scripts pkg =
     (case set_script pkg (lit ''dev'') script_dev of
        Throw \<Rightarrow> Throw
      | Exit n \<Rightarrow> Exit n
      | Ret pkg1 \<Rightarrow>
          (case set_script pkg1 (lit ''dev:convex'') script_dev_convex of
             Throw \<Rightarrow> Throw
           | Exit n \<Rightarrow> Exit n
           | Ret pkg2 \<Rightarrow> set_script pkg2 (lit ''start'') script_start))"

text \<open>The names of the properties of the scripts section of a patched manifest.\<close>

definition script_names :: "json result \<Rightarrow> jstring list" where
  "script_names r =
     (case r of
        Ret (JObj ps) \<Rightarrow> (case map_of ps (lit ''scripts'') of Some (JObj qs) \<Rightarrow> map fst qs | _ \<Rightarrow> [])
      | _ \<Rightarrow> [])"

subsection \<open>The steps of createProject\<close>

definition step1_template :: "ext \<Rightarrow> jstring \<Rightarrow> jstring \<Rightarrow> trace \<Rightarrow> unit run" where
  "step1_template E projectName projectPath t =
     and_then (sh E (CreateConvex projectName)
        (console_log (c_info (lit ''Running create-convex with tanstack-start template...''))
          (console_log (c_header (lit ''Creating Project from Template'')) t))) (\<lambda>out t1.
     process_chdir E projectPath (console_log (c_success (lit ''Project created'')) t1))"

definition step2_nitro :: "ext \<Rightarrow> trace \<Rightarrow> unit run" where
  "step2_nitro E t =
     and_then (sh E BunAddNitro
        (console_log (c_info (lit ''Installing nitro-nightly...''))
          (console_log (c_header (lit ''Adding Nitro for Vercel'')) t))) (\<lambda>out t1.
     (Ret (), console_log (c_success (lit ''Nitro installed'')) t1))"

definition step3_vite :: "ext \<Rightarrow> trace \<Rightarrow> unit run" where
  "step3_vite E t =
     and_then (bun_write E (lit ''vite.config.ts'') VITE_CONFIG
        (console_log (c_info (lit ''Adding Nitro plugin to vite.config.ts...''))
          (console_log (c_header (lit ''Configuring Vite'')) t))) (\<lambda>u t1.
     (Ret (), console_log (c_success (lit ''vite.config.ts configured'')) t1))"

definition step4_vercel_json :: "ext \<Rightarrow> trace \<Rightarrow> unit run" where
  "step4_vercel_json E t =
     and_then (bun_write E (lit ''vercel.json'') VERCEL_JSON
        (console_log (c_info (lit ''Creating vercel.json...''))
          (console_log (c_header (lit ''Configuring Vercel'')) t))) (\<lambda>u t1.
     (Ret (), console_log (c_success (lit ''vercel.json created'')) t1))"

definition step5_scripts :: "ext \<Rightarrow> trace \<Rightarrow> unit run" where
  "step5_scripts E t =
     and_then (file_json E (lit ''package.json'')
        (console_log (c_info (lit ''Patching package.json scripts...''))
          (console_log (c_header (lit ''Updating Scripts for Bun'')) t))) (\<lambda>pkg t1.
     (case patch_scripts pkg of
        Throw \<Rightarrow> (Throw, t1)
      | Exit n \<Rightarrow> (Exit n, t1)
      | Ret pkg' \<Rightarrow>
          and_then (bun_write E (lit ''package.json'') (JSON_stringify2 pkg' @ [10]) t1) (\<lambda>u t2.
          (Ret (), console_log (c_success (lit ''package.json updated'')) t2))))"

definition step6_install :: "ext \<Rightarrow> trace \<Rightarrow> unit run" where
  "step6_install E t =
     and_then (sh E BunInstall
        (console_log (c_info (lit ''Running bun install...''))
          (console_log (c_header (lit ''Installing Dependencies'')) t))) (\<lambda>out t1.
     (Ret (), console_log (c_success (lit ''Dependencies installed'')) t1))"

definition step7_git :: "ext \<Rightarrow> trace \<Rightarrow> unit run" where
  "step7_git E t =
     and_then (sh E GitInit
        (console_log (c_info (lit ''Initializing git repository...''))
          (console_log (c_header (lit ''Initializing Git'')) t))) (\<lambda>out t1.
     and_then (sh E GitAddAll t1) (\<lambda>out t2.
     and_then (sh E GitCommit t2) (\<lambda>out t3.
     (Ret (), console_log (c_success (lit ''Git repository initialized'')) t3))))"

definition step8_github :: "ext \<Rightarrow> jstring \<Rightarrow> trace \<Rightarrow> unit run" where
  "step8_github E projectName t =
     try_catch
       (and_then (sh E (GhRepoCreate projectName)
          (console_log (c_info (lit ''Creating GitHub repository...''))
            (console_log (c_header (lit ''Creating GitHub Repository'')) t))) (\<lambda>out t1.
        (Ret (), console_log (c_success (lit ''GitHub repository created and pushed'')) t1)))
       (\<lambda>t1. (Ret (),
          console_log (lit ''  Run manually: gh repo create '' @ projectName
                       @ lit '' --private --source=. --remote=origin --push'' @ [10])
            (console_log (c_warning (lit ''Could not create GitHub repository automatically.'')) t1)))"

text \<open>Step 9 gives the backend URL: \<^verbatim>\<open>envVars.VITE_CONVEX_URL || ""\<close>, and the empty string on failure.\<close>

definition step9_convex :: "ext \<Rightarrow> trace \<Rightarrow> jstring run" where
  "step9_convex E t =
     try_catch
       (and_then (sh E ConvexDevOnce
          (console_log (c_info (lit ''Creating Convex project...''))
            (console_log (c_header (lit ''Setting Up Convex'')) t))) (\<lambda>out t1.
        and_then (readEnvFile E (lit ''.env.local'')
          (console_log (c_success (lit ''Convex project initialized'')) t1)) (\<lambda>envVars t2.
        (let convexUrl = (case envVars (lit ''VITE_CONVEX_URL'') of None \<Rightarrow> [] | Some u \<Rightarrow> u)
         in if convexUrl \<noteq> [] then
              (Ret convexUrl,
               console_log (c_success (lit ''Found VITE_CONVEX_URL: '' @ convexUrl)) t2)
            else (Ret convexUrl, t2)))))
       (\<lambda>t1. (Ret [],
          console_log
            (c_warning (lit ''Could not initialize Convex automatically. Run: bunx convex dev'' @ [10]))
            t1))"

definition step10_deploy_key :: "ext \<Rightarrow> trace \<Rightarrow> jstring run" where
  "step10_deploy_key E t =
     prompt E
       (col_yellow @ lit ''?'' @ col_reset
        @ lit '' Paste your Convex Deploy Key (or press Enter to skip): '')
       (console_log (lit ''  3. Create a new deploy key and copy it'' @ [10])
         (console_log (lit ''  2. Select your project '' @ [0x2192] @ lit '' Settings '' @ [0x2192]
                       @ lit '' Deploy Keys'')
           (console_log (lit ''  1. Go to: https://dashboard.convex.dev'')
             (console_log (c_info (lit ''A deploy key is required for Vercel deployments.'' @ [10]))
               (console_log (c_header (lit ''Convex Deploy Key'')) t)))))"

definition step11_link :: "ext \<Rightarrow> trace \<Rightarrow> bool run" where
  "step11_link E t =
     try_catch
       (and_then (sh E VercelLink
          (console_log (c_info (lit ''Linking to Vercel...''))
            (console_log (c_header (lit ''Setting Up Vercel'')) t))) (\<lambda>out t1.
        (Ret True, console_log (c_success (lit ''Vercel project linked'')) t1)))
       (\<lambda>t1. (Ret False,
          console_log
            (c_warning (lit ''Could not link Vercel automatically. Run: bunx vercel link'' @ [10]))
            t1))"

definition envTargets :: "jstring list" where
  "envTargets = [lit ''production'', lit ''preview'', lit ''development'']"

definition msg_url_missing :: jstring where
  "msg_url_missing = c_warning (lit ''VITE_CONVEX_URL not found. Add it manually in Vercel dashboard.'')"

definition msg_url_failed :: jstring where
  "msg_url_failed = c_warning (lit ''Could not add VITE_CONVEX_URL. Add it manually in Vercel dashboard.'')"

definition msg_key_missing :: jstring where
  "msg_key_missing =
     c_warning (lit ''No deploy key provided. Add CONVEX_DEPLOY_KEY manually in Vercel dashboard.'')"

definition msg_key_failed :: jstring where
  "msg_key_failed = c_warning (lit ''Could not add CONVEX_DEPLOY_KEY. Add it manually in Vercel dashboard.'')"

text \<open>The first half of step 12, for the backend URL.\<close>

definition step12_url :: "ext \<Rightarrow> jstring \<Rightarrow> trace \<Rightarrow> trace" where
  "step12_url E convexUrl t =
     (if convexUrl \<noteq> [] then
        (case addVercelEnvVar E (lit ''VITE_CONVEX_URL'') convexUrl envTargets
                (console_log (c_info (lit ''Adding VITE_CONVEX_URL...'')) t) of
           (Ret added, t1) \<Rightarrow>
             if added then console_log (c_success (lit ''VITE_CONVEX_URL added to Vercel'')) t1
             else console_log msg_url_failed t1
         | (Exit n, t1) \<Rightarrow> t1
         | (Throw, t1) \<Rightarrow> t1)
      else console_log msg_url_missing t)"

text \<open>The second half of step 12, for the deploy key.\<close>

definition step12_key :: "ext \<Rightarrow> jstring \<Rightarrow> jstring \<Rightarrow> trace \<Rightarrow> trace" where
  "step12_key E projectName deployKey t =
     (if deployKey \<noteq> [] then
        (case addVercelEnvVar E (lit ''CONVEX_DEPLOY_KEY'') deployKey envTargets
                (console_log (c_info (lit ''Adding CONVEX_DEPLOY_KEY...'')) t) of
           (Ret added, t1) \<Rightarrow>
             if added then console_log (c_success (lit ''CONVEX_DEPLOY_KEY added to Vercel'')) t1
             else console_log msg_key_failed t1
         | (Exit n, t1) \<Rightarrow> t1
         | (Throw, t1) \<Rightarrow> t1)
      else
        console_log (lit ''  3. Add CONVEX_DEPLOY_KEY'' @ [10])
          (console_log (lit ''  2. Select: '' @ projectName @ lit '' '' @ [0x2192] @ lit '' Settings ''
                        @ [0x2192] @ lit '' Environment Variables'')
            (console_log ([10] @ lit ''  1. Go to: https://vercel.com/dashboard'')
              (console_log msg_key_missing t))))"

definition step12_env :: "ext \<Rightarrow> jstring \<Rightarrow> jstring \<Rightarrow> jstring \<Rightarrow> bool \<Rightarrow> trace \<Rightarrow> trace" where
  "step12_env E projectName convexUrl deployKey vercelLinked t =
     (if vercelLinked then
        step12_key E projectName deployKey
          (step12_url E convexUrl
            (console_log (c_header (lit ''Adding Environment Variables to Vercel'')) t))
      else
        console_log (lit ''     - VITE_CONVEX_URL (from .env.local)'' @ [10])
          (console_log (lit ''     - CONVEX_DEPLOY_KEY (from Convex dashboard)'')
            (console_log (lit ''  3. Add:'')
              (console_log (lit ''  2. Select: '' @ projectName @ lit '' '' @ [0x2192] @ lit '' Settings ''
                            @ [0x2192] @ lit '' Environment Variables'')
                (console_log ([10] @ lit ''  1. Go to: https://vercel.com/dashboard'')
                  (console_log (c_warning (lit ''ACTION REQUIRED: Add Environment Variables in Vercel''))
                    (console_log [] t)))))))"

definition complete :: "jstring \<Rightarrow> jstring \<Rightarrow> trace \<Rightarrow> trace" where
  "complete projectName projectPath t =
     console_log (c_success (lit ''Happy coding!''))
       (console_log (lit ''    bunx vercel --prod'' @ [10])
         (console_log (lit ''  '' @ col_green @ lit ''Deploy:'' @ col_reset)
           (console_log (lit ''    bun run dev'' @ [10])
             (console_log (lit ''    cd '' @ projectName)
               (console_log (lit ''  '' @ col_green @ lit ''Quick Start:'' @ col_reset)
                 (console_log (lit ''  Project: '' @ projectPath @ [10])
                   (console_log (c_header (lit ''Setup Complete!'')) t)))))))"

definition createProject :: "ext \<Rightarrow> jstring \<Rightarrow> trace \<Rightarrow> unit run" where
  "createProject E projectName t0 =
     (let projectPath = x_resolve E [x_cwd E t0, projectName] in
      case existsSync E projectPath t0 of (found, t) \<Rightarrow>
        if found then
          (Exit 1,
           console_log
             (c_error (lit ''Directory '' @ [39] @ projectName @ [39] @ lit '' already exists.'')) t)
        else
          and_then (step1_template E projectName projectPath t) (\<lambda>u t.
          and_then (step2_nitro E t) (\<lambda>u t.
          and_then (step3_vite E t) (\<lambda>u t.
          and_then (step4_vercel_json E t) (\<lambda>u t.
          and_then (step5_scripts E t) (\<lambda>u t.
          and_then (step6_install E t) (\<lambda>u t.
          and_then (step7_git E t) (\<lambda>u t.
          and_then (step8_github E projectName t) (\<lambda>u t.
          and_then (step9_convex E t) (\<lambda>convexUrl t.
          and_then (step10_deploy_key E t) (\<lambda>deployKey t.
          and_then (step11_link E t) (\<lambda>vercelLinked t.
          (Ret (),
           complete projectName projectPath
             (step12_env E projectName convexUrl deployKey vercelLinked t))))))))))))))"

section \<open>Main\<close>

definition help_text :: jstring where
  "help_text =
     [10] @ nl_lines
       [col_bold @ lit ''create-m10n'' @ col_reset,
        [],
        lit ''Create a Convex + TanStack Start project for Vercel.'',
        [],
        col_bold @ lit ''Usage:'' @ col_reset,
        lit ''  bunx create-m10n <project-name>'',
        [],
        col_bold @ lit ''Options:'' @ col_reset,
        lit ''  -s, --skip-checks    Skip prerequisite checks'',
        lit ''  -h, --help           Show this help message'',
        [],
        col_bold @ lit ''Prerequisites:'' @ col_reset,
        lit ''  gh auth login        # GitHub CLI'',
        lit ''  bunx convex login    # Convex CLI'',
        lit ''  bunx vercel login    # Vercel CLI'']"

text \<open>The test of the regular expression \<^verbatim>\<open>/^[a-zA-Z][a-zA-Z0-9_-]*$/\<close>.\<close>

definition is_letter :: "nat \<Rightarrow> bool" where
  "is_letter c = ((97 \<le> c \<and> c \<le> 122) \<or> (65 \<le> c \<and> c \<le> 90))"

definition is_name_unit :: "nat \<Rightarrow> bool" where
  "is_name_unit c = (is_letter c \<or> (48 \<le> c \<and> c \<le> 57) \<or> c = 95 \<or> c = 45)"

definition name_test :: "jstring \<Rightarrow> bool" where
  "name_test s = (case s of [] \<Rightarrow> False | c # cs \<Rightarrow> is_letter c \<and> list_all is_name_unit cs)"

definition skip_checks :: "jstring list \<Rightarrow> bool" where
  "skip_checks args = (lit ''--skip-checks'' \<in> set args \<or> lit ''-s'' \<in> set args)"

definition show_help :: "jstring list \<Rightarrow> bool" where
  "show_help args = (lit ''--help'' \<in> set args \<or> lit ''-h'' \<in> set args)"

definition project_arg :: "jstring list \<Rightarrow> jstring option" where
  "project_arg args = List.find (\<lambda>arg. \<not> startsWith arg (lit ''-'')) args"

text \<open>A missing argument and the empty string are both false in a condition.\<close>

definition given :: "jstring option \<Rightarrow> bool" where
  "given projectName = (case projectName of None \<Rightarrow> False | Some n \<Rightarrow> n \<noteq> [])"

definition msg_invalid_name :: jstring where
  "msg_invalid_name =
     c_error (lit ''Invalid project name. Use letters, numbers, hyphens, underscores. Start with a letter.'')"

definition msg_bootstrap :: jstring where
  "msg_bootstrap = c_header (lit ''Bootstrap: Convex + TanStack Start + Vercel'')"

definition main :: "ext \<Rightarrow> jstring list \<Rightarrow> trace \<Rightarrow> unit run" where
  "main E args t =
     (let skipChecks = skip_checks args;
          showHelp = show_help args;
          projectName = project_arg args
      in if showHelp \<or> \<not> given projectName then
           (Exit (if given projectName then 0 else 1), console_log help_text t)
         else
           (case projectName of
              None \<Rightarrow> (Exit 1, console_log help_text t)
            | Some name \<Rightarrow>
                if \<not> name_test name then (Exit 1, console_log msg_invalid_name t)
                else
                  (let t1 = console_log (lit ''  Project: '' @ name @ [10])
                              (console_log msg_bootstrap t)
                   in if \<not> skipChecks then
                        and_then (checkAllPrerequisites E t1) (\<lambda>ok t2.
                          if \<not> ok then (Exit 1, t2) else createProject E name t2)
                      else createProject E name t1)))"

section \<open>Reading a trace\<close>

text \<open>The commands of a trace, in the order in which they were started.\<close>

fun ran :: "trace \<Rightarrow> cmd list" where
  "ran [] = []"
| "ran (Ran c r # t) = c # ran t"
| "ran (e # t) = ran t"

text \<open>The commands of a trace that failed.\<close>

fun failed :: "trace \<Rightarrow> cmd list" where
  "failed [] = []"
| "failed (Ran c None # t) = c # failed t"
| "failed (e # t) = failed t"

text \<open>The pushes of one variable to a list of environments, in the order of the list.\<close>

definition pushes :: "jstring \<Rightarrow> jstring \<Rightarrow> jstring list \<Rightarrow> cmd list" where
  "pushes name v envs = map (VercelEnvAdd v name) envs"

section \<open>Sample surroundings\<close>

text \<open>
  Concrete surroundings for the examples: commands succeed with empty output where the
  given test holds, every file read gives the given text and the given structured value,
  every path probe gives the given answer, and the operator enters the given line.
\<close>

definition demo_resolve :: "jstring list \<Rightarrow> jstring" where
  "demo_resolve ps = join [47] ps"

definition demo_ext ::
    "(cmd \<Rightarrow> bool) \<Rightarrow> jstring option \<Rightarrow> json option \<Rightarrow> bool \<Rightarrow> jstring \<Rightarrow> ext" where
  "demo_ext works txt js ex ans =
     \<lparr> x_run = (\<lambda>t c. if works c then Some [] else None),
       x_exists = (\<lambda>t p. ex),
       x_text = (\<lambda>t p. txt),
       x_json = (\<lambda>t p. js),
       x_write = (\<lambda>t p c. True),
       x_chdir = (\<lambda>t p. True),
       x_answer = (\<lambda>t q. ans),
       x_getenv = (\<lambda>v. Some (lit ''/home/dev'')),
       x_cwd = (\<lambda>t. lit ''/work''),
       x_resolve = demo_resolve \<rparr>"

definition all_work :: "cmd \<Rightarrow> bool" where
  "all_work c = True"

text \<open>Every command succeeds but the push to the environment \<^verbatim>\<open>preview\<close>.\<close>

definition preview_fails :: "cmd \<Rightarrow> bool" where
  "preview_fails c = (c \<noteq> VercelEnvAdd (lit ''key1'') (lit ''CONVEX_DEPLOY_KEY'') (lit ''preview''))"

text \<open>Every command succeeds but the push to the environment \<^verbatim>\<open>production\<close>.\<close>

definition production_fails :: "cmd \<Rightarrow> bool" where
  "production_fails c = (c \<noteq> VercelEnvAdd (lit ''key1'') (lit ''CONVEX_DEPLOY_KEY'') (lit ''production''))"

text \<open>The six lines \<^verbatim>\<open>FOO=bar\<close>, \<^verbatim>\<open># comment\<close>, \<^verbatim>\<open>BAZ="qux"\<close>, an empty line, \<^verbatim>\<open>BAD_LINE\<close>, \<^verbatim>\<open>FOO=baz\<close>.\<close>

definition env_sample :: jstring where
  "env_sample =
     lit ''FOO=bar'' @ [10] @ lit ''# comment'' @ [10] @ lit ''BAZ='' @ [34] @ lit ''qux'' @ [34]
     @ [10] @ [10] @ lit ''BAD_LINE'' @ [10] @ lit ''FOO=baz''"

text \<open>The manifest \<^verbatim>\<open>{"name": "app", "scripts": {"dev": "old"}, "private": true}\<close>.\<close>

definition manifest_sample :: json where
  "manifest_sample =
     JObj [(lit ''name'', JStr (lit ''app'')),
           (lit ''scripts'', JObj [(lit ''dev'', JStr (lit ''old''))]),
           (lit ''private'', JBool True)]"

text \<open>The object \<^verbatim>\<open>{"maxSize": Infinity}\<close>, as the parser gives it for the text \<^verbatim>\<open>{"maxSize": 1e400}\<close>.\<close>

definition big_number_sample :: json where
  "big_number_sample = JObj [(lit ''maxSize'', JNum (lit ''Infinity''))]"

text \<open>The text written for the patched sample manifest.\<close>

definition manifest_text :: jstring where
  "manifest_text = nl_lines
        [lit ''{'',
         lit ''  '' @ [34] @ lit ''name'' @ [34] @ lit '': '' @ [34] @ lit ''app'' @ [34] @ lit '','',
         lit ''  '' @ [34] @ lit ''scripts'' @ [34] @ lit '': {'',
         lit ''    '' @ [34] @ lit ''dev'' @ [34] @ lit '': '' @ [34] @ lit ''bunx convex dev --once && concurrently -r bun:dev:web bun:dev:convex'' @ [34] @ lit '','',
         lit ''    '' @ [34] @ lit ''dev:convex'' @ [34] @ lit '': '' @ [34] @ lit ''bunx convex dev'' @ [34] @ lit '','',
         lit ''    '' @ [34] @ lit ''start'' @ [34] @ lit '': '' @ [34] @ lit ''bun .output/server/index.mjs'' @ [34],
         lit ''  },'',
         lit ''  '' @ [34] @ lit ''private'' @ [34] @ lit '': true'',
         lit ''}'']"

section \<open>Facts about the string functions\<close>

lemma is_ws_eq [simp]: "\<not> is_ws 61"
  by (simp add: is_ws_def)

lemma is_ws_nl [simp]: "is_ws 10"
  by (simp add: is_ws_def)

lemma trimEnd_Cons:
  "trimEnd (x # xs) = (if trimEnd xs = [] \<and> is_ws x then [] else x # trimEnd xs)"
  by (simp add: trimEnd_def dropWhile_append)

lemma trimStart_trimEnd: "trimStart (trimEnd s) = trimEnd (trimStart s)"
proof (induction s)
  case Nil
  show ?case by (simp add: trimStart_def trimEnd_def)
next
  case (Cons x xs)
  show ?case
  proof (cases "is_ws x")
    case True
    with Cons show ?thesis
      by (auto simp: trimEnd_Cons) (simp_all add: trimStart_def)
  next
    case False
    then show ?thesis
      by (simp add: trimEnd_Cons) (simp add: trimStart_def trimEnd_Cons)
  qed
qed

lemma trimStart_idem [simp]: "trimStart (trimStart s) = trimStart s"
  by (simp add: trimStart_def dropWhile_idem)

lemma trimEnd_idem [simp]: "trimEnd (trimEnd s) = trimEnd s"
  by (simp add: trimEnd_def dropWhile_idem)

lemma trim_trimStart [simp]: "trim (trimStart s) = trim s"
  by (simp add: trim_def)

lemma trim_trimEnd [simp]: "trim (trimEnd s) = trim s"
  by (simp add: trim_def trimStart_trimEnd)


lemma indexOf_first: "c \<notin> set a \<Longrightarrow> indexOf (a @ c # b) c = int (length a)"
  by (induction a) (auto simp: Let_def)

lemma indexOf_absent: "indexOf s c = - 1 \<longleftrightarrow> c \<notin> set s"
proof (induction s)
  case Nil
  show ?case by simp
next
  case (Cons x xs)
  have "0 \<le> indexOf xs c \<or> indexOf xs c = - 1"
    by (induction xs) (auto simp: Let_def)
  with Cons show ?case by (auto simp: Let_def)
qed

lemma indexOf_split:
  "indexOf s c \<noteq> - 1 \<Longrightarrow>
     \<exists>a b. s = a @ c # b \<and> c \<notin> set a \<and> indexOf s c = int (length a)"
proof -
  assume "indexOf s c \<noteq> - 1"
  then have "c \<in> set s" by (simp add: indexOf_absent)
  then obtain a b where "s = a @ c # b" "c \<notin> set a"
    by (meson split_list_first)
  then show ?thesis using indexOf_first by blast
qed

lemma slice_before: "slice (a @ c # b) 0 (int (length a)) = a"
  by (simp add: slice_def Let_def)






lemma set_trim: "set (trim s) \<subseteq> set s"
proof -
  have "set (trimEnd u) \<subseteq> set u" for u
    using set_dropWhileD[of _ is_ws "rev u"] by (auto simp: trimEnd_def)
  moreover have "set (trimStart u) \<subseteq> set u" for u
    using set_dropWhileD[of _ is_ws u] by (auto simp: trimStart_def)
  ultimately show ?thesis unfolding trim_def by blast
qed

section \<open>The env-file parser\<close>

lemma readEnvFile_some:
  "x_text E t p = Some content \<Longrightarrow>
   readEnvFile E p t =
     (Ret (foldl readEnvLine Map.empty (split_on 10 content)), t @ [ReadText p (Some content)])"
  by (simp add: readEnvFile_def file_text_def and_then_def try_catch_def)

lemma readEnvFile_none:
  "x_text E t p = None \<Longrightarrow> readEnvFile E p t = (Ret Map.empty, t @ [ReadText p None])"
  by (simp add: readEnvFile_def file_text_def and_then_def try_catch_def)

lemmas line_eval =
  readEnvLine_def lit_def trim_def trimStart_def trimEnd_def is_ws_def startsWith_def
  endsWith_def slice_def slice_from_def obj_set_def Let_def

lemma split_sample:
  "split_on 10 env_sample =
     [lit ''FOO=bar'', lit ''# comment'', lit ''BAZ='' @ [34] @ lit ''qux'' @ [34], [],
      lit ''BAD_LINE'', lit ''FOO=baz'']"
  by (simp add: env_sample_def lit_def)

lemma sample_line1: "readEnvLine env (lit ''FOO=bar'') = env(lit ''FOO'' \<mapsto> lit ''bar'')"
  by (simp add: line_eval)

lemma sample_line2: "readEnvLine env (lit ''# comment'') = env"
  by (simp add: line_eval)

lemma sample_line3:
  "readEnvLine env (lit ''BAZ='' @ [34] @ lit ''qux'' @ [34]) = env(lit ''BAZ'' \<mapsto> lit ''qux'')"
  by (simp add: line_eval)

lemma sample_line4: "readEnvLine env [] = env"
  by (simp add: line_eval)

lemma sample_line5: "readEnvLine env (lit ''BAD_LINE'') = env"
  by (simp add: line_eval)

lemma sample_line6: "readEnvLine env (lit ''FOO=baz'') = env(lit ''FOO'' \<mapsto> lit ''baz'')"
  by (simp add: line_eval)

lemma parse_sample:
  "foldl readEnvLine Map.empty (split_on 10 env_sample) =
     [lit ''FOO'' \<mapsto> lit ''baz'', lit ''BAZ'' \<mapsto> lit ''qux'']"
  apply (simp only: split_sample foldl.simps sample_line1 sample_line2 sample_line3
      sample_line4 sample_line5 sample_line6)
  apply (rule ext)
  apply (simp add: lit_def)
  done



lemma readEnvLine_keys:
  assumes "\<forall>k \<in> dom env. 61 \<notin> set k"
  shows "\<forall>k \<in> dom (readEnvLine env line). 61 \<notin> set k"
proof (cases "trim line \<noteq> [] \<and> \<not> startsWith (trim line) (lit ''#'')
                \<and> indexOf (trim line) 61 \<noteq> - 1")
  case False
  with assms show ?thesis by (auto simp: readEnvLine_def Let_def)
next
  case True
  then obtain a b where ab:
    "trim line = a @ 61 # b" "61 \<notin> set a" "indexOf (trim line) 61 = int (length a)"
    using indexOf_split by blast
  have "61 \<notin> set (trim a)" using ab(2) set_trim by blast
  moreover have "slice (trim line) 0 (indexOf (trim line) 61) = a"
    by (simp add: ab(3)) (simp add: ab(1) slice_before)
  ultimately show ?thesis
    using assms True by (auto simp: readEnvLine_def Let_def obj_set_def split: if_splits)
qed

lemma foldl_readEnvLine_keys:
  "\<forall>k \<in> dom env. 61 \<notin> set k \<Longrightarrow> \<forall>k \<in> dom (foldl readEnvLine env ls). 61 \<notin> set k"
proof (induction ls arbitrary: env)
  case Nil
  then show ?case by simp
next
  case (Cons l ls)
  from Cons.prems have "\<forall>k \<in> dom (readEnvLine env l). 61 \<notin> set k"
    by (rule readEnvLine_keys)
  then show ?case using Cons.IH by simp
qed

text \<open>
  C3, as the code has it. A key of the returned map never holds the character \<^verbatim>\<open>=\<close> (code
  unit 61): it is the trimmed text before the first \<^verbatim>\<open>=\<close> of its line. Nothing makes it
  non-empty: see the next theorem.
\<close>

theorem readEnvFile_keys:
  "value_of (readEnvFile E p t) k = Some v \<Longrightarrow> 61 \<notin> set k"
proof -
  assume r: "value_of (readEnvFile E p t) k = Some v"
  obtain m where m: "fst (readEnvFile E p t) = Ret m" and "\<forall>k \<in> dom m. 61 \<notin> set k"
  proof (cases "x_text E t p")
    case None
    then show ?thesis using that[of Map.empty] by (simp add: readEnvFile_none)
  next
    case (Some content)
    then show ?thesis
      using that[of "foldl readEnvLine Map.empty (split_on 10 content)"]
        foldl_readEnvLine_keys[of Map.empty]
      by (simp add: readEnvFile_some)
  qed
  moreover from r m have "k \<in> dom m" by (auto simp: value_of_def)
  ultimately show ?thesis by blast
qed

theorem readEnvFile_keys_witness:
  "value_of (readEnvFile (demo_ext all_work (Some env_sample) None False []) (lit ''.env.local'') [])
      (lit ''BAZ'') = Some (lit ''qux'')
   \<and> 61 \<notin> set (lit ''BAZ'')"
proof -
  have v: "value_of (readEnvFile (demo_ext all_work (Some env_sample) None False [])
             (lit ''.env.local'') []) (lit ''BAZ'') = Some (lit ''qux'')"
    by (simp add: value_of_def readEnvFile_some demo_ext_def parse_sample)
  from readEnvFile_keys[OF v] v show ?thesis by simp
qed

text \<open>
  C3, the claim as stated fails: the file with the one line \<^verbatim>\<open>=x\<close> gives a map with the
  empty string as a key (\<open>eqIndex\<close> is 0, and only -1 is tested for).
\<close>

theorem readEnvFile_empty_key:
  "value_of (readEnvFile (demo_ext all_work (Some (lit ''=x'')) None False []) (lit ''.env.local'') [])
      [] = Some (lit ''x'')"
  by (simp add: value_of_def readEnvFile_def file_text_def and_then_def try_catch_def demo_ext_def
      line_eval)

text \<open>
  C4. On the file with the six lines \<^verbatim>\<open>FOO=bar\<close>, \<^verbatim>\<open># comment\<close>, \<^verbatim>\<open>BAZ="qux"\<close>, an empty line,
  \<^verbatim>\<open>BAD_LINE\<close> and \<^verbatim>\<open>FOO=baz\<close>, \<^verbatim>\<open>readEnvFile\<close> returns exactly the map with \<^verbatim>\<open>FOO\<close> bound to
  \<^verbatim>\<open>baz\<close> and \<^verbatim>\<open>BAZ\<close> bound to \<^verbatim>\<open>qux\<close>.
\<close>

theorem readEnvFile_example:
  "x_text E t p = Some env_sample \<Longrightarrow>
     fst (readEnvFile E p t) = Ret [lit ''FOO'' \<mapsto> lit ''baz'', lit ''BAZ'' \<mapsto> lit ''qux'']"
  by (simp add: readEnvFile_some parse_sample)

theorem readEnvFile_example_witness:
  "x_text (demo_ext all_work (Some env_sample) None False []) [] (lit ''.env.local'') = Some env_sample
   \<and> fst (readEnvFile (demo_ext all_work (Some env_sample) None False []) (lit ''.env.local'') [])
       = Ret [lit ''FOO'' \<mapsto> lit ''baz'', lit ''BAZ'' \<mapsto> lit ''qux'']"
proof -
  have h: "x_text (demo_ext all_work (Some env_sample) None False []) [] (lit ''.env.local'')
             = Some env_sample"
    by (simp add: demo_ext_def)
  from readEnvFile_example[OF h] h show ?thesis by simp
qed

text \<open>
  C9. \<^verbatim>\<open>readEnvFile\<close> always returns a map, never an exception and never an exit; when the
  file cannot be read, the map is empty.
\<close>

theorem readEnvFile_unreadable:
  "(\<exists>m tr. readEnvFile E p t = (Ret m, tr))
   \<and> (x_text E t p = None \<longrightarrow> fst (readEnvFile E p t) = Ret Map.empty)"
  by (cases "x_text E t p") (simp_all add: readEnvFile_some readEnvFile_none)

theorem readEnvFile_unreadable_witness:
  "x_text (demo_ext all_work None None False []) [] (lit ''.env.local'') = None
   \<and> fst (readEnvFile (demo_ext all_work None None False []) (lit ''.env.local'') []) = Ret Map.empty"
proof -
  have h: "x_text (demo_ext all_work None None False []) [] (lit ''.env.local'') = None"
    by (simp add: demo_ext_def)
  with readEnvFile_unreadable[of "demo_ext all_work None None False []" "lit ''.env.local''" "[]"]
  show ?thesis by simp
qed




section \<open>Pushing environment variables\<close>

lemma failed_subset_ran: "set (failed tr) \<subseteq> set (ran tr)"
  by (induction tr rule: failed.induct) auto

lemma failed_ran_Nil: "ran tr = [] \<Longrightarrow> failed tr = []"
  using failed_subset_ran[of tr] by auto

lemma push_loop_shape:
  "\<exists>tr. push_loop E name v envs t = ((if failed tr = [] then Ret () else Throw), t @ tr)
        \<and> length (ran tr) = length tr
        \<and> prefix (ran tr) (pushes name v envs)
        \<and> (failed tr = [] \<longrightarrow> ran tr = pushes name v envs)
        \<and> (failed tr \<noteq> [] \<longrightarrow> failed tr = [last (ran tr)])"
proof (induction envs arbitrary: t)
  case Nil
  show ?case by (rule exI[of _ "[]"]) (simp add: pushes_def)
next
  case (Cons e es)
  let ?c = "VercelEnvAdd v name e"
  show ?case
  proof (cases "x_run E t ?c")
    case None
    show ?thesis
      by (rule exI[of _ "[Ran ?c None]"]) (simp add: sh_def None pushes_def)
  next
    case (Some out)
    from Cons[of "t @ [Ran ?c (Some out)]"] obtain tr where tr:
      "push_loop E name v es (t @ [Ran ?c (Some out)])
         = ((if failed tr = [] then Ret () else Throw), (t @ [Ran ?c (Some out)]) @ tr)"
      "length (ran tr) = length tr"
      "prefix (ran tr) (pushes name v es)"
      "failed tr = [] \<longrightarrow> ran tr = pushes name v es"
      "failed tr \<noteq> [] \<longrightarrow> failed tr = [last (ran tr)]"
      by blast
    have "failed tr \<noteq> [] \<longrightarrow> ran tr \<noteq> []" using failed_ran_Nil by blast
    with tr show ?thesis
      by (intro exI[of _ "Ran ?c (Some out) # tr"]) (auto simp: sh_def Some pushes_def)
  qed
qed

lemma addVercelEnvVar_shape:
  "\<exists>tr. addVercelEnvVar E name v envs t = (Ret (failed tr = []), t @ tr)
        \<and> length (ran tr) = length tr
        \<and> prefix (ran tr) (pushes name v envs)
        \<and> (failed tr = [] \<longrightarrow> ran tr = pushes name v envs)
        \<and> (failed tr \<noteq> [] \<longrightarrow> failed tr = [last (ran tr)])"
proof -
  from push_loop_shape[of E name v envs t] obtain tr where tr:
    "push_loop E name v envs t = ((if failed tr = [] then Ret () else Throw), t @ tr)"
    "length (ran tr) = length tr"
    "prefix (ran tr) (pushes name v envs)"
    "failed tr = [] \<longrightarrow> ran tr = pushes name v envs"
    "failed tr \<noteq> [] \<longrightarrow> failed tr = [last (ran tr)]"
    by blast
  then show ?thesis
    by (intro exI[of _ tr]) (simp add: addVercelEnvVar_def and_then_def try_catch_def)
qed

lemma length_ran_le: "length (ran tr) \<le> length tr"
  by (induction tr rule: ran.induct) auto

lemma only_ran_no_log: "length (ran tr) = length tr \<Longrightarrow> Log m \<notin> set tr"
proof (induction tr)
  case Nil
  show ?case by simp
next
  case (Cons e tr)
  then show ?case using length_ran_le[of tr] by (cases e) auto
qed

lemma msg_distinct:
  "msg_url_failed \<noteq> c_info (lit ''Adding VITE_CONVEX_URL...'')"
  "msg_url_failed \<noteq> c_success (lit ''VITE_CONVEX_URL added to Vercel'')"
  "msg_key_failed \<noteq> c_info (lit ''Adding CONVEX_DEPLOY_KEY...'')"
  "msg_key_failed \<noteq> c_success (lit ''CONVEX_DEPLOY_KEY added to Vercel'')"
  by (simp_all add: msg_url_failed_def msg_key_failed_def c_info_def c_success_def c_warning_def
      col_yellow_def col_blue_def col_green_def esc_def lit_def)

lemma step12_url_shape:
  assumes "convexUrl \<noteq> []"
  shows "\<exists>tr. step12_url E convexUrl t =
            t @ [Log (c_info (lit ''Adding VITE_CONVEX_URL...''))] @ tr
              @ [Log (if failed tr = [] then c_success (lit ''VITE_CONVEX_URL added to Vercel'')
                      else msg_url_failed)]
        \<and> addVercelEnvVar E (lit ''VITE_CONVEX_URL'') convexUrl envTargets
             (console_log (c_info (lit ''Adding VITE_CONVEX_URL...'')) t)
           = (Ret (failed tr = []), console_log (c_info (lit ''Adding VITE_CONVEX_URL...'')) t @ tr)
        \<and> length (ran tr) = length tr
        \<and> prefix (ran tr) (pushes (lit ''VITE_CONVEX_URL'') convexUrl envTargets)
        \<and> (failed tr = [] \<longrightarrow> ran tr = pushes (lit ''VITE_CONVEX_URL'') convexUrl envTargets)
        \<and> (failed tr \<noteq> [] \<longrightarrow> failed tr = [last (ran tr)])"
proof -
  let ?t = "console_log (c_info (lit ''Adding VITE_CONVEX_URL...'')) t"
  from addVercelEnvVar_shape[of E "lit ''VITE_CONVEX_URL''" convexUrl envTargets ?t]
  obtain tr where tr:
    "addVercelEnvVar E (lit ''VITE_CONVEX_URL'') convexUrl envTargets ?t = (Ret (failed tr = []), ?t @ tr)"
    "length (ran tr) = length tr"
    "prefix (ran tr) (pushes (lit ''VITE_CONVEX_URL'') convexUrl envTargets)"
    "failed tr = [] \<longrightarrow> ran tr = pushes (lit ''VITE_CONVEX_URL'') convexUrl envTargets"
    "failed tr \<noteq> [] \<longrightarrow> failed tr = [last (ran tr)]"
    by blast
  then show ?thesis using assms
    by (intro exI[of _ tr]) (simp add: step12_url_def console_log_def)
qed

lemma step12_key_shape:
  assumes "deployKey \<noteq> []"
  shows "\<exists>tr. step12_key E projectName deployKey t =
            t @ [Log (c_info (lit ''Adding CONVEX_DEPLOY_KEY...''))] @ tr
              @ [Log (if failed tr = [] then c_success (lit ''CONVEX_DEPLOY_KEY added to Vercel'')
                      else msg_key_failed)]
        \<and> addVercelEnvVar E (lit ''CONVEX_DEPLOY_KEY'') deployKey envTargets
             (console_log (c_info (lit ''Adding CONVEX_DEPLOY_KEY...'')) t)
           = (Ret (failed tr = []), console_log (c_info (lit ''Adding CONVEX_DEPLOY_KEY...'')) t @ tr)
        \<and> length (ran tr) = length tr
        \<and> prefix (ran tr) (pushes (lit ''CONVEX_DEPLOY_KEY'') deployKey envTargets)
        \<and> (failed tr = [] \<longrightarrow> ran tr = pushes (lit ''CONVEX_DEPLOY_KEY'') deployKey envTargets)
        \<and> (failed tr \<noteq> [] \<longrightarrow> failed tr = [last (ran tr)])"
proof -
  let ?t = "console_log (c_info (lit ''Adding CONVEX_DEPLOY_KEY...'')) t"
  from addVercelEnvVar_shape[of E "lit ''CONVEX_DEPLOY_KEY''" deployKey envTargets ?t]
  obtain tr where tr:
    "addVercelEnvVar E (lit ''CONVEX_DEPLOY_KEY'') deployKey envTargets ?t = (Ret (failed tr = []), ?t @ tr)"
    "length (ran tr) = length tr"
    "prefix (ran tr) (pushes (lit ''CONVEX_DEPLOY_KEY'') deployKey envTargets)"
    "failed tr = [] \<longrightarrow> ran tr = pushes (lit ''CONVEX_DEPLOY_KEY'') deployKey envTargets"
    "failed tr \<noteq> [] \<longrightarrow> failed tr = [last (ran tr)]"
    by blast
  then show ?thesis using assms
    by (intro exI[of _ tr]) (simp add: step12_key_def console_log_def)
qed

lemma url_warning_iff:
  assumes "convexUrl \<noteq> []"
  shows "(Log msg_url_failed \<in> set (drop (length t) (step12_url E convexUrl t)))
         = (fst (addVercelEnvVar E (lit ''VITE_CONVEX_URL'') convexUrl envTargets
                  (console_log (c_info (lit ''Adding VITE_CONVEX_URL...'')) t)) = Ret False)"
proof -
  from step12_url_shape[OF assms, of E t] obtain tr where tr:
    "step12_url E convexUrl t =
       t @ [Log (c_info (lit ''Adding VITE_CONVEX_URL...''))] @ tr
         @ [Log (if failed tr = [] then c_success (lit ''VITE_CONVEX_URL added to Vercel'')
                 else msg_url_failed)]"
    "addVercelEnvVar E (lit ''VITE_CONVEX_URL'') convexUrl envTargets
       (console_log (c_info (lit ''Adding VITE_CONVEX_URL...'')) t)
     = (Ret (failed tr = []), console_log (c_info (lit ''Adding VITE_CONVEX_URL...'')) t @ tr)"
    "length (ran tr) = length tr"
    by blast
  from tr(3) have "Log msg_url_failed \<notin> set tr" by (rule only_ran_no_log)
  then show ?thesis
    using msg_distinct by (auto simp: tr(1,2))
qed

lemma key_warning_iff:
  assumes "deployKey \<noteq> []"
  shows "(Log msg_key_failed \<in> set (drop (length t) (step12_key E projectName deployKey t)))
         = (fst (addVercelEnvVar E (lit ''CONVEX_DEPLOY_KEY'') deployKey envTargets
                  (console_log (c_info (lit ''Adding CONVEX_DEPLOY_KEY...'')) t)) = Ret False)"
proof -
  from step12_key_shape[OF assms, of E projectName t] obtain tr where tr:
    "step12_key E projectName deployKey t =
       t @ [Log (c_info (lit ''Adding CONVEX_DEPLOY_KEY...''))] @ tr
         @ [Log (if failed tr = [] then c_success (lit ''CONVEX_DEPLOY_KEY added to Vercel'')
                 else msg_key_failed)]"
    "addVercelEnvVar E (lit ''CONVEX_DEPLOY_KEY'') deployKey envTargets
       (console_log (c_info (lit ''Adding CONVEX_DEPLOY_KEY...'')) t)
     = (Ret (failed tr = []), console_log (c_info (lit ''Adding CONVEX_DEPLOY_KEY...'')) t @ tr)"
    "length (ran tr) = length tr"
    by blast
  from tr(3) have "Log msg_key_failed \<notin> set tr" by (rule only_ran_no_log)
  then show ?thesis
    using msg_distinct by (auto simp: tr(1,2))
qed

text \<open>
  C1, as the code has it. The pushes of one variable are started in the order of the
  environment list and stop at the first one that fails: the commands run are a prefix
  of the pushes, all of them when none fails, and when one fails it is the only failure
  and the last command run. \<^verbatim>\<open>addVercelEnvVar\<close> returns true exactly when no push failed. In
  step 12 the warning for a variable is printed exactly when \<^verbatim>\<open>addVercelEnvVar\<close> returned false
  for it, that is when one push failed, not only when all did.
\<close>

theorem addVercelEnvVar_fail_fast:
  "(\<exists>tr. addVercelEnvVar E name v envs t = (Ret (failed tr = []), t @ tr)
        \<and> length (ran tr) = length tr
        \<and> prefix (ran tr) (pushes name v envs)
        \<and> (failed tr = [] \<longrightarrow> ran tr = pushes name v envs)
        \<and> (failed tr \<noteq> [] \<longrightarrow> failed tr = [last (ran tr)]))
   \<and> (convexUrl \<noteq> [] \<longrightarrow>
        (Log msg_url_failed \<in> set (drop (length t) (step12_url E convexUrl t)))
        = (fst (addVercelEnvVar E (lit ''VITE_CONVEX_URL'') convexUrl envTargets
                 (console_log (c_info (lit ''Adding VITE_CONVEX_URL...'')) t)) = Ret False))
   \<and> (deployKey \<noteq> [] \<longrightarrow>
        (Log msg_key_failed \<in> set (drop (length t) (step12_key E projectName deployKey t)))
        = (fst (addVercelEnvVar E (lit ''CONVEX_DEPLOY_KEY'') deployKey envTargets
                 (console_log (c_info (lit ''Adding CONVEX_DEPLOY_KEY...'')) t)) = Ret False))"
  using addVercelEnvVar_shape[of E name v envs t] url_warning_iff[of convexUrl t E]
    key_warning_iff[of deployKey t E projectName]
  by blast

lemmas push_eval =
  step12_env_def step12_key_def step12_url_def addVercelEnvVar_def sh_def demo_ext_def
  envTargets_def console_log_def and_then_def try_catch_def

text \<open>
  C1, the claim as stated fails. When the push to \<^verbatim>\<open>preview\<close> fails, the push to
  \<^verbatim>\<open>development\<close> is never started, and the warning is printed although the push to
  \<^verbatim>\<open>production\<close> succeeded.
\<close>

theorem addVercelEnvVar_aborts_on_failure:
  "step12_key (demo_ext preview_fails None None False []) (lit ''app'') (lit ''key1'') [] =
     [Log (c_info (lit ''Adding CONVEX_DEPLOY_KEY...'')),
      Ran (VercelEnvAdd (lit ''key1'') (lit ''CONVEX_DEPLOY_KEY'') (lit ''production'')) (Some []),
      Ran (VercelEnvAdd (lit ''key1'') (lit ''CONVEX_DEPLOY_KEY'') (lit ''preview'')) None,
      Log msg_key_failed]"
  by (simp add: push_eval preview_fails_def) (simp add: lit_def)

theorem addVercelEnvVar_fail_fast_witness:
  "lit ''key1'' \<noteq> []
   \<and> fst (addVercelEnvVar (demo_ext preview_fails None None False []) (lit ''CONVEX_DEPLOY_KEY'')
          (lit ''key1'') envTargets (console_log (c_info (lit ''Adding CONVEX_DEPLOY_KEY...'')) []))
       = Ret False
   \<and> Log msg_key_failed
       \<in> set (drop (length ([] :: trace))
            (step12_key (demo_ext preview_fails None None False []) (lit ''app'') (lit ''key1'') []))"
proof -
  have k: "lit ''key1'' \<noteq> []" by (simp add: lit_def)
  have f: "fst (addVercelEnvVar (demo_ext preview_fails None None False []) (lit ''CONVEX_DEPLOY_KEY'')
          (lit ''key1'') envTargets (console_log (c_info (lit ''Adding CONVEX_DEPLOY_KEY...'')) []))
       = Ret False"
    by (simp add: push_eval preview_fails_def)
  from addVercelEnvVar_fail_fast[of "demo_ext preview_fails None None False []" "lit ''CONVEX_DEPLOY_KEY''"
      "lit ''key1''" envTargets "[]" "lit ''url''" "lit ''key1''" "lit ''app''"] k f
  show ?thesis by blast
qed

lemma msg_key_missing_distinct:
  "msg_key_missing \<noteq> c_header (lit ''Adding Environment Variables to Vercel'')"
  "msg_key_missing \<noteq> msg_url_missing"
  "msg_key_missing \<noteq> c_info (lit ''Adding CONVEX_DEPLOY_KEY...'')"
  "msg_key_missing \<noteq> c_success (lit ''CONVEX_DEPLOY_KEY added to Vercel'')"
  "msg_key_missing \<noteq> msg_key_failed"
  by (simp_all add: msg_key_missing_def msg_url_missing_def msg_key_failed_def c_header_def
      c_info_def c_success_def c_warning_def col_yellow_def col_blue_def col_green_def esc_def lit_def)

text \<open>
  C5, as the code has it. With the link made, an empty backend URL and a deploy key
  that is not empty, step 12 prints the warning that \<^verbatim>\<open>VITE_CONVEX_URL\<close> was not found and then
  runs pushes of \<^verbatim>\<open>CONVEX_DEPLOY_KEY\<close> only, in the order production, preview, development,
  up to the first that fails; it runs no push of the URL variable and never prints the
  instructions for a missing deploy key. It ends with the success line when no push
  failed, and with the warning to add the deploy key by hand otherwise.
\<close>

theorem step12_pushes_key_only:
  assumes "deployKey \<noteq> []"
  shows "\<exists>tr. step12_env E projectName [] deployKey True t =
            t @ [Log (c_header (lit ''Adding Environment Variables to Vercel'')),
                 Log msg_url_missing,
                 Log (c_info (lit ''Adding CONVEX_DEPLOY_KEY...''))]
              @ tr
              @ [Log (if failed tr = [] then c_success (lit ''CONVEX_DEPLOY_KEY added to Vercel'')
                      else msg_key_failed)]
        \<and> length (ran tr) = length tr
        \<and> prefix (ran tr) (pushes (lit ''CONVEX_DEPLOY_KEY'') deployKey envTargets)
        \<and> (failed tr = [] \<longrightarrow> ran tr = pushes (lit ''CONVEX_DEPLOY_KEY'') deployKey envTargets)
        \<and> (failed tr \<noteq> [] \<longrightarrow> failed tr = [last (ran tr)])
        \<and> (\<forall>u e. VercelEnvAdd u (lit ''VITE_CONVEX_URL'') e \<notin> set (ran tr))
        \<and> Log msg_key_missing \<notin> set (drop (length t) (step12_env E projectName [] deployKey True t))"
proof -
  let ?t = "console_log msg_url_missing
              (console_log (c_header (lit ''Adding Environment Variables to Vercel'')) t)"
  from step12_key_shape[OF assms, of E projectName ?t] obtain tr where tr:
    "step12_key E projectName deployKey ?t =
       ?t @ [Log (c_info (lit ''Adding CONVEX_DEPLOY_KEY...''))] @ tr
         @ [Log (if failed tr = [] then c_success (lit ''CONVEX_DEPLOY_KEY added to Vercel'')
                 else msg_key_failed)]"
    "length (ran tr) = length tr"
    "prefix (ran tr) (pushes (lit ''CONVEX_DEPLOY_KEY'') deployKey envTargets)"
    "failed tr = [] \<longrightarrow> ran tr = pushes (lit ''CONVEX_DEPLOY_KEY'') deployKey envTargets"
    "failed tr \<noteq> [] \<longrightarrow> failed tr = [last (ran tr)]"
    by blast
  have e: "step12_env E projectName [] deployKey True t =
            t @ [Log (c_header (lit ''Adding Environment Variables to Vercel'')),
                 Log msg_url_missing,
                 Log (c_info (lit ''Adding CONVEX_DEPLOY_KEY...''))]
              @ tr
              @ [Log (if failed tr = [] then c_success (lit ''CONVEX_DEPLOY_KEY added to Vercel'')
                      else msg_key_failed)]"
    by (simp add: step12_env_def step12_url_def tr(1)) (simp add: console_log_def)
  have "set (ran tr) \<subseteq> set (pushes (lit ''CONVEX_DEPLOY_KEY'') deployKey envTargets)"
    using tr(3) set_mono_prefix by blast
  moreover have "lit ''VITE_CONVEX_URL'' \<noteq> lit ''CONVEX_DEPLOY_KEY''"
    by (simp add: lit_def)
  ultimately have u: "\<forall>u e. VercelEnvAdd u (lit ''VITE_CONVEX_URL'') e \<notin> set (ran tr)"
    by (auto simp: pushes_def)
  have "Log msg_key_missing \<notin> set tr" using tr(2) by (rule only_ran_no_log)
  then have m: "Log msg_key_missing \<notin> set (drop (length t) (step12_env E projectName [] deployKey True t))"
    using msg_key_missing_distinct by (auto simp: e)
  from e tr(2-5) u m show ?thesis by blast
qed

theorem step12_pushes_key_only_witness:
  "lit ''key1'' \<noteq> []
   \<and> step12_env (demo_ext all_work None None False []) (lit ''app'') [] (lit ''key1'') True [] =
       [Log (c_header (lit ''Adding Environment Variables to Vercel'')),
        Log msg_url_missing,
        Log (c_info (lit ''Adding CONVEX_DEPLOY_KEY...'')),
        Ran (VercelEnvAdd (lit ''key1'') (lit ''CONVEX_DEPLOY_KEY'') (lit ''production'')) (Some []),
        Ran (VercelEnvAdd (lit ''key1'') (lit ''CONVEX_DEPLOY_KEY'') (lit ''preview'')) (Some []),
        Ran (VercelEnvAdd (lit ''key1'') (lit ''CONVEX_DEPLOY_KEY'') (lit ''development'')) (Some []),
        Log (c_success (lit ''CONVEX_DEPLOY_KEY added to Vercel''))]"
proof -
  have k: "lit ''key1'' \<noteq> []" by (simp add: lit_def)
  have "step12_env (demo_ext all_work None None False []) (lit ''app'') [] (lit ''key1'') True [] =
       [Log (c_header (lit ''Adding Environment Variables to Vercel'')),
        Log msg_url_missing,
        Log (c_info (lit ''Adding CONVEX_DEPLOY_KEY...'')),
        Ran (VercelEnvAdd (lit ''key1'') (lit ''CONVEX_DEPLOY_KEY'') (lit ''production'')) (Some []),
        Ran (VercelEnvAdd (lit ''key1'') (lit ''CONVEX_DEPLOY_KEY'') (lit ''preview'')) (Some []),
        Ran (VercelEnvAdd (lit ''key1'') (lit ''CONVEX_DEPLOY_KEY'') (lit ''development'')) (Some []),
        Log (c_success (lit ''CONVEX_DEPLOY_KEY added to Vercel''))]"
    by (simp add: k push_eval all_work_def)
  with k step12_pushes_key_only[OF k, of "demo_ext all_work None None False []" "lit ''app''" "[]"]
  show ?thesis by blast
qed

text \<open>
  C5, the claim as stated fails. When the push to \<^verbatim>\<open>production\<close> fails, it is the only push
  started (not three), and the manual-entry warning is printed for the deploy key as well.
\<close>

theorem step12_stops_at_failed_push:
  "step12_env (demo_ext production_fails None None False []) (lit ''app'') [] (lit ''key1'') True [] =
     [Log (c_header (lit ''Adding Environment Variables to Vercel'')),
      Log msg_url_missing,
      Log (c_info (lit ''Adding CONVEX_DEPLOY_KEY...'')),
      Ran (VercelEnvAdd (lit ''key1'') (lit ''CONVEX_DEPLOY_KEY'') (lit ''production'')) None,
      Log msg_key_failed]"
proof -
  have k: "lit ''key1'' \<noteq> []" by (simp add: lit_def)
  show ?thesis by (simp add: k push_eval production_fails_def)
qed

section \<open>The prerequisite checker\<close>

lemma checkBun_ret: "\<exists>r t'. checkBun E t = (Ret r, t') \<and> prefix t t'"
  by (cases "x_run E t BunVersion") (simp_all add: checkBun_def sh_def and_then_def try_catch_def)

lemma checkGitHub_ret: "\<exists>r t'. checkGitHub E t = (Ret r, t') \<and> prefix t t'"
proof (cases "x_run E t GhAuthStatus")
  case None
  then show ?thesis by (simp add: checkGitHub_def sh_def and_then_def try_catch_def)
next
  case (Some out)
  then show ?thesis
    by (cases "x_run E (t @ [Ran GhAuthStatus (Some out)]) GhApiUserLogin")
       (simp_all add: checkGitHub_def sh_def and_then_def try_catch_def prefix_def)
qed

lemma get_prop_no_exit: "get_prop v k \<noteq> Exit n"
  by (cases v) (simp_all add: get_prop_def)

lemma checkConvex_ret: "\<exists>r t'. checkConvex E t = (Ret r, t') \<and> prefix t t'"
proof -
  let ?p = "x_resolve E [home_dir E, lit ''.convex'', lit ''config.json'']"
  show ?thesis
  proof (cases "x_exists E t ?p")
    case False
    then show ?thesis by (simp add: checkConvex_def existsSync_def try_catch_def Let_def)
  next
    case True
    show ?thesis
    proof (cases "x_json E (t @ [Exists ?p True]) ?p")
      case None
      with True show ?thesis
        by (simp add: checkConvex_def existsSync_def try_catch_def Let_def file_json_def
            and_then_def prefix_def)
    next
      case (Some config)
      with True show ?thesis
        using get_prop_no_exit[of config "lit ''accessToken''"]
        by (cases "get_prop config (lit ''accessToken'')")
           (auto simp: checkConvex_def existsSync_def try_catch_def Let_def file_json_def
             and_then_def prefix_def)
    qed
  qed
qed

lemma commandExists_ret: "\<exists>r t'. commandExists E c t = (Ret r, t') \<and> prefix t t'"
  by (cases "x_run E t (Which c)") (auto simp: commandExists_def sh_def and_then_def try_catch_def)

lemma checkVercel_ret: "\<exists>r t'. checkVercel E t = (Ret r, t') \<and> prefix t t'"
proof -
  from commandExists_ret[of E "lit ''vercel''" t] obtain b t1 where
    c: "commandExists E (lit ''vercel'') t = (Ret b, t1)" and p: "prefix t t1"
    by blast
  show ?thesis
  proof (cases b)
    case True
    with c p show ?thesis
      by (cases "x_run E t1 VercelWhoami")
         (auto simp: checkVercel_def sh_def and_then_def try_catch_def intro: prefix_order.trans)
  next
    case False
    with c p show ?thesis
      by (cases "x_run E t1 BunxVercelWhoami")
         (auto simp: checkVercel_def sh_def and_then_def try_catch_def intro: prefix_order.trans)
  qed
qed

lemma report_bun_flag: "\<exists>t'. report_bun r (g, t) = (g \<and> ok r, t') \<and> prefix t t'"
  by (simp add: report_bun_def console_log_def prefix_def)

lemma report_gh_flag: "\<exists>t'. report_gh r (g, t) = (g \<and> ok r, t') \<and> prefix t t'"
  by (simp add: report_gh_def console_log_def prefix_def)

lemma report_convex_flag: "\<exists>t'. report_convex r (g, t) = (g \<and> ok r, t') \<and> prefix t t'"
  by (simp add: report_convex_def console_log_def prefix_def)

lemma report_vercel_flag: "\<exists>t'. report_vercel r (g, t) = (g \<and> ok r, t') \<and> prefix t t'"
  by (simp add: report_vercel_def console_log_def prefix_def)

lemma report_all_ret: "\<exists>t'. report_all (g, t) = (Ret g, t') \<and> prefix t t'"
  by (simp add: report_all_def console_log_def prefix_def)

text \<open>
  C6. Every run of \<^verbatim>\<open>checkAllPrerequisites\<close> holds a run of each of the four checks, one after
  the other and whatever the earlier ones reported, and returns true exactly when all
  four report ok.
\<close>

theorem checkAllPrerequisites_runs_all:
  "\<exists>bun gh convex vercel t1 t1' t2 t2' t3 t3' t4 t4' tr.
      checkBun E t1 = (Ret bun, t1') \<and> checkGitHub E t2 = (Ret gh, t2')
    \<and> checkConvex E t3 = (Ret convex, t3') \<and> checkVercel E t4 = (Ret vercel, t4')
    \<and> prefix t t1 \<and> prefix t1' t2 \<and> prefix t2' t3 \<and> prefix t3' t4 \<and> prefix t4' tr
    \<and> checkAllPrerequisites E t = (Ret (ok bun \<and> ok gh \<and> ok convex \<and> ok vercel), tr)"
proof -
  let ?t1 = "console_log (c_info (lit ''Checking bun...''))
               (console_log (c_header (lit ''Checking Prerequisites'')) t)"
  have p1: "prefix t ?t1" by (simp add: console_log_def prefix_def)
  from checkBun_ret[of E ?t1] obtain bun t1' where
    b: "checkBun E ?t1 = (Ret bun, t1')" by blast
  from report_bun_flag[of bun True t1'] obtain u1 where
    rb: "report_bun bun (True, t1') = (ok bun, u1)" and pb: "prefix t1' u1" by auto
  let ?t2 = "console_log (c_info (lit ''Checking GitHub CLI (gh)...'')) u1"
  have p2: "prefix t1' ?t2" using pb by (auto simp: console_log_def prefix_def)
  from checkGitHub_ret[of E ?t2] obtain gh t2' where
    g: "checkGitHub E ?t2 = (Ret gh, t2')" by blast
  from report_gh_flag[of gh "ok bun" t2'] obtain u2 where
    rg: "report_gh gh (ok bun, t2') = (ok bun \<and> ok gh, u2)" and pg: "prefix t2' u2" by auto
  let ?t3 = "console_log (c_info (lit ''Checking Convex CLI...'')) u2"
  have p3: "prefix t2' ?t3" using pg by (auto simp: console_log_def prefix_def)
  from checkConvex_ret[of E ?t3] obtain convex t3' where
    c: "checkConvex E ?t3 = (Ret convex, t3')" by blast
  from report_convex_flag[of convex "ok bun \<and> ok gh" t3'] obtain u3 where
    rc: "report_convex convex (ok bun \<and> ok gh, t3') = (ok bun \<and> ok gh \<and> ok convex, u3)"
    and pc: "prefix t3' u3" by (auto simp: conj_assoc)
  let ?t4 = "console_log (c_info (lit ''Checking Vercel CLI...'')) u3"
  have p4: "prefix t3' ?t4" using pc by (auto simp: console_log_def prefix_def)
  from checkVercel_ret[of E ?t4] obtain vercel t4' where
    v: "checkVercel E ?t4 = (Ret vercel, t4')" by blast
  from report_vercel_flag[of vercel "ok bun \<and> ok gh \<and> ok convex" t4'] obtain u4 where
    rv: "report_vercel vercel (ok bun \<and> ok gh \<and> ok convex, t4')
           = (ok bun \<and> ok gh \<and> ok convex \<and> ok vercel, u4)"
    and pv: "prefix t4' u4" by (auto simp: conj_assoc)
  from report_all_ret[of "ok bun \<and> ok gh \<and> ok convex \<and> ok vercel" u4] obtain tr where
    ra: "report_all (ok bun \<and> ok gh \<and> ok convex \<and> ok vercel, u4)
           = (Ret (ok bun \<and> ok gh \<and> ok convex \<and> ok vercel), tr)"
    and pa: "prefix u4 tr" by auto
  have p5: "prefix t4' tr" using pv pa by (rule prefix_order.trans)
  have "checkAllPrerequisites E t = (Ret (ok bun \<and> ok gh \<and> ok convex \<and> ok vercel), tr)"
    by (simp add: checkAllPrerequisites_def and_then_def b rb g rg c rc v rv ra)
  with b g c v p1 p2 p3 p4 p5 show ?thesis by blast
qed

text \<open>
  C8. When the target directory exists, \<^verbatim>\<open>createProject\<close> probes the path, prints an error
  that contains \<^verbatim>\<open>already exists\<close> and exits with status 1; the trace holds nothing else: no
  command, no file written, no change of directory.
\<close>

theorem createProject_existing_directory:
  assumes "x_exists E t (x_resolve E [x_cwd E t, projectName])"
  shows "createProject E projectName t =
           (Exit 1,
            t @ [Exists (x_resolve E [x_cwd E t, projectName]) True,
                 Log (c_error (lit ''Directory '' @ [39] @ projectName @ [39] @ lit '' already exists.''))])
         \<and> includes_str
             (c_error (lit ''Directory '' @ [39] @ projectName @ [39] @ lit '' already exists.''))
             (lit ''already exists'')"
proof -
  have "c_error (lit ''Directory '' @ [39] @ projectName @ [39] @ lit '' already exists.'')
          = (col_red @ [0x2717] @ col_reset @ lit '' '' @ lit ''Directory '' @ [39] @ projectName
             @ [39] @ lit '' '') @ lit ''already exists'' @ lit ''.''"
    by (simp add: c_error_def lit_def)
  then have "includes_str
             (c_error (lit ''Directory '' @ [39] @ projectName @ [39] @ lit '' already exists.''))
             (lit ''already exists'')"
    unfolding includes_str_def sublist_def by blast
  then show ?thesis
    using assms by (simp add: createProject_def existsSync_def console_log_def Let_def)
qed

theorem createProject_existing_directory_witness:
  "x_exists (demo_ext all_work None None True []) []
     (x_resolve (demo_ext all_work None None True [])
        [x_cwd (demo_ext all_work None None True []) [], lit ''myapp''])
   \<and> createProject (demo_ext all_work None None True []) (lit ''myapp'') [] =
       (Exit 1,
        [Exists (lit ''/work/myapp'') True,
         Log (c_error (lit ''Directory '' @ [39] @ lit ''myapp'' @ [39] @ lit '' already exists.''))])"
proof -
  have h: "x_exists (demo_ext all_work None None True []) []
     (x_resolve (demo_ext all_work None None True [])
        [x_cwd (demo_ext all_work None None True []) [], lit ''myapp''])"
    by (simp add: demo_ext_def)
  have r: "x_resolve (demo_ext all_work None None True [])
        [x_cwd (demo_ext all_work None None True []) [], lit ''myapp''] = lit ''/work/myapp''"
    by (simp add: demo_ext_def demo_resolve_def lit_def)
  from createProject_existing_directory[OF h] h show ?thesis
    by (simp add: r)
qed

section \<open>The manifest patch\<close>

lemma map_of_upsert: "map_of (upsert ps k v) = (map_of ps)(k \<mapsto> v)"
  by (induction ps k v rule: upsert.induct) (auto simp: fun_upd_twist)

lemma upsert_upsert: "upsert (upsert ps k a) k b = upsert ps k b"
  by (induction ps k a rule: upsert.induct) auto

lemma upsert_in_place:
  "map_of ps k = Some w \<Longrightarrow>
     length (upsert ps k v) = length ps
     \<and> (\<forall>i<length ps. fst (upsert ps k v ! i) = fst (ps ! i)
                       \<and> (fst (ps ! i) \<noteq> k \<longrightarrow> upsert ps k v ! i = ps ! i))"
proof (induction ps k v rule: upsert.induct)
  case (1 k v)
  then show ?case by simp
next
  case (2 k' v' ps k v)
  show ?case
  proof (cases "k' = k")
    case True
    then show ?thesis by (auto simp: nth_Cons split: nat.splits)
  next
    case False
    with 2 have "length (upsert ps k v) = length ps
     \<and> (\<forall>i<length ps. fst (upsert ps k v ! i) = fst (ps ! i)
                       \<and> (fst (ps ! i) \<noteq> k \<longrightarrow> upsert ps k v ! i = ps ! i))"
      by simp
    with False show ?thesis by (auto simp: nth_Cons split: nat.splits)
  qed
qed

lemma set_script_on_object:
  assumes "map_of props (lit ''scripts'') = Some (JObj qs)"
  shows "set_script (JObj props) k v =
           Ret (JObj (upsert props (lit ''scripts'') (JObj (upsert qs k (JStr v)))))"
  using assms by (simp add: set_script_def get_prop_def set_prop_def)

lemma script_keys_distinct:
  "lit ''dev'' \<noteq> lit ''dev:convex''" "lit ''dev'' \<noteq> lit ''start''" "lit ''dev:convex'' \<noteq> lit ''start''"
  by (simp_all add: lit_def)

lemma patch_scripts_on_dev:
  assumes "map_of props (lit ''scripts'') = Some (JObj [(lit ''dev'', old)])"
  shows "patch_scripts (JObj props) =
           Ret (JObj (upsert props (lit ''scripts'')
                  (JObj [(lit ''dev'', JStr script_dev),
                         (lit ''dev:convex'', JStr script_dev_convex),
                         (lit ''start'', JStr script_start)])))"
proof -
  let ?s = "lit ''scripts''"
  let ?q1 = "[(lit ''dev'', JStr script_dev)]"
  let ?q2 = "[(lit ''dev'', JStr script_dev), (lit ''dev:convex'', JStr script_dev_convex)]"
  have 1: "set_script (JObj props) (lit ''dev'') script_dev = Ret (JObj (upsert props ?s (JObj ?q1)))"
    using set_script_on_object[OF assms] by simp
  have m1: "map_of (upsert props ?s (JObj ?q1)) ?s = Some (JObj ?q1)"
    by (simp add: map_of_upsert)
  have 2: "set_script (JObj (upsert props ?s (JObj ?q1))) (lit ''dev:convex'') script_dev_convex
             = Ret (JObj (upsert props ?s (JObj ?q2)))"
    using set_script_on_object[OF m1] script_keys_distinct by (simp add: upsert_upsert)
  have m2: "map_of (upsert props ?s (JObj ?q2)) ?s = Some (JObj ?q2)"
    by (simp add: map_of_upsert)
  have 3: "set_script (JObj (upsert props ?s (JObj ?q2))) (lit ''start'') script_start
             = Ret (JObj (upsert props ?s
                  (JObj [(lit ''dev'', JStr script_dev),
                         (lit ''dev:convex'', JStr script_dev_convex),
                         (lit ''start'', JStr script_start)])))"
    using set_script_on_object[OF m2] script_keys_distinct by (simp add: upsert_upsert)
  show ?thesis by (simp add: patch_scripts_def 1 2 3)
qed

lemma stringify_object_end:
  "ps \<noteq> [] \<Longrightarrow> \<exists>body. JSON_stringify2 (JObj ps) @ [10] = body @ [125, 10]"
  by (simp add: JSON_stringify2_def lit_def)

lemma stringify_non_finite:
  "JSON_stringify2 big_number_sample
     = lit ''{'' @ [10] @ lit ''  '' @ [34] @ lit ''maxSize'' @ [34] @ lit '': null'' @ [10] @ lit ''}''"
  by (simp add: JSON_stringify2_def big_number_sample_def json_quote_def finite_number_def
      is_lead_def is_trail_def lit_def)

lemma step5_outcome:
  assumes "x_json E (console_log (c_info (lit ''Patching package.json scripts...''))
                      (console_log (c_header (lit ''Updating Scripts for Bun'')) t))
             (lit ''package.json'') = Some pkg"
      and "patch_scripts pkg = Ret pkg'"
  shows "step5_scripts E t =
           (if x_write E
                 (t @ [Log (c_header (lit ''Updating Scripts for Bun'')),
                       Log (c_info (lit ''Patching package.json scripts...'')),
                       ReadJson (lit ''package.json'') (Some pkg)])
                 (lit ''package.json'') (JSON_stringify2 pkg' @ [10])
            then (Ret (),
                  t @ [Log (c_header (lit ''Updating Scripts for Bun'')),
                       Log (c_info (lit ''Patching package.json scripts...'')),
                       ReadJson (lit ''package.json'') (Some pkg),
                       Wrote (lit ''package.json'') (JSON_stringify2 pkg' @ [10]) True,
                       Log (c_success (lit ''package.json updated''))])
            else (Throw,
                  t @ [Log (c_header (lit ''Updating Scripts for Bun'')),
                       Log (c_info (lit ''Patching package.json scripts...'')),
                       ReadJson (lit ''package.json'') (Some pkg),
                       Wrote (lit ''package.json'') (JSON_stringify2 pkg' @ [10]) False]))"
  using assms
  by (simp add: step5_scripts_def file_json_def and_then_def bun_write_def console_log_def)

text \<open>
  C2, as the code has it. For a manifest whose scripts section is \<^verbatim>\<open>{"dev": "old"}\<close>, the patch
  leaves exactly the three scripts \<^verbatim>\<open>dev\<close>, \<^verbatim>\<open>dev:convex\<close> and \<^verbatim>\<open>start\<close> with their fixed values,
  and every other top-level field of the parsed manifest keeps its place and its value
  in the object that is serialised. The step reads the manifest and writes to
  \<^verbatim>\<open>package.json\<close> the serialisation of that object with a gap of two spaces, followed by
  one newline (the text ends with a closing brace and the newline); it prints the success
  line when the write succeeds and ends with the exception of the write otherwise. In
  the text written, a number that is not finite stands as \<^verbatim>\<open>null\<close> (\<open>stringify_non_finite\<close>).
\<close>

theorem manifest_patch:
  assumes "map_of props (lit ''scripts'') = Some (JObj [(lit ''dev'', JStr (lit ''old''))])"
      and "x_json E (console_log (c_info (lit ''Patching package.json scripts...''))
                      (console_log (c_header (lit ''Updating Scripts for Bun'')) t))
             (lit ''package.json'') = Some (JObj props)"
  shows "\<exists>props' body.
      patch_scripts (JObj props) = Ret (JObj props')
    \<and> map_of props' (lit ''scripts'')
        = Some (JObj [(lit ''dev'', JStr script_dev),
                      (lit ''dev:convex'', JStr script_dev_convex),
                      (lit ''start'', JStr script_start)])
    \<and> length props' = length props
    \<and> (\<forall>i<length props. fst (props' ! i) = fst (props ! i)
          \<and> (fst (props ! i) \<noteq> lit ''scripts'' \<longrightarrow> props' ! i = props ! i))
    \<and> step5_scripts E t =
        (if x_write E
              (t @ [Log (c_header (lit ''Updating Scripts for Bun'')),
                    Log (c_info (lit ''Patching package.json scripts...'')),
                    ReadJson (lit ''package.json'') (Some (JObj props))])
              (lit ''package.json'') (JSON_stringify2 (JObj props') @ [10])
         then (Ret (),
               t @ [Log (c_header (lit ''Updating Scripts for Bun'')),
                    Log (c_info (lit ''Patching package.json scripts...'')),
                    ReadJson (lit ''package.json'') (Some (JObj props)),
                    Wrote (lit ''package.json'') (JSON_stringify2 (JObj props') @ [10]) True,
                    Log (c_success (lit ''package.json updated''))])
         else (Throw,
               t @ [Log (c_header (lit ''Updating Scripts for Bun'')),
                    Log (c_info (lit ''Patching package.json scripts...'')),
                    ReadJson (lit ''package.json'') (Some (JObj props)),
                    Wrote (lit ''package.json'') (JSON_stringify2 (JObj props') @ [10]) False]))
    \<and> JSON_stringify2 (JObj props') @ [10] = body @ [125, 10]"
proof -
  let ?new = "JObj [(lit ''dev'', JStr script_dev),
                    (lit ''dev:convex'', JStr script_dev_convex),
                    (lit ''start'', JStr script_start)]"
  let ?f = "upsert props (lit ''scripts'') ?new"
  have p: "patch_scripts (JObj props) = Ret (JObj ?f)"
    using assms(1) by (rule patch_scripts_on_dev)
  have m: "map_of ?f (lit ''scripts'') = Some ?new"
    by (simp add: map_of_upsert)
  have i: "length ?f = length props
     \<and> (\<forall>i<length props. fst (?f ! i) = fst (props ! i)
           \<and> (fst (props ! i) \<noteq> lit ''scripts'' \<longrightarrow> ?f ! i = props ! i))"
    using assms(1) by (rule upsert_in_place)
  note w = step5_outcome[OF assms(2) p]
  have "?f \<noteq> []" using m by auto
  then obtain body where b: "JSON_stringify2 (JObj ?f) @ [10] = body @ [125, 10]"
    using stringify_object_end by blast
  show ?thesis
    by (intro exI[of _ ?f] exI[of _ body] conjI p m w b) (use i in blast)+
qed

text \<open>
  C2, the claim as stated fails: the code assigns three scripts, so the section holds
  three keys, not four.
\<close>

theorem manifest_patch_three_scripts:
  "script_names (patch_scripts manifest_sample) = [lit ''dev'', lit ''dev:convex'', lit ''start'']
   \<and> length (script_names (patch_scripts manifest_sample)) \<noteq> 4"
  by (simp add: script_names_def patch_scripts_def set_script_def get_prop_def set_prop_def
      manifest_sample_def lit_def)

section \<open>The trace only grows\<close>

named_theorems grows

lemma log_grows [grows]: "prefix t u \<Longrightarrow> prefix t (console_log m u)"
  by (auto simp: console_log_def prefix_def)

lemma sh_grows [grows]: "prefix t u \<Longrightarrow> prefix t (snd (sh E c u))"
  by (cases "x_run E u c") (auto simp: sh_def prefix_def)

lemma bun_write_grows [grows]: "prefix t u \<Longrightarrow> prefix t (snd (bun_write E p c u))"
  by (auto simp: bun_write_def prefix_def)

lemma process_chdir_grows [grows]: "prefix t u \<Longrightarrow> prefix t (snd (process_chdir E p u))"
  by (auto simp: process_chdir_def prefix_def)

lemma file_json_grows [grows]: "prefix t u \<Longrightarrow> prefix t (snd (file_json E p u))"
  by (cases "x_json E u p") (auto simp: file_json_def prefix_def)

lemma prompt_grows [grows]: "prefix t u \<Longrightarrow> prefix t (snd (prompt E q u))"
  by (auto simp: prompt_def Let_def prefix_def)

lemma and_then_grows [grows]:
  assumes "prefix t (snd r)" and "\<And>x u. prefix t u \<Longrightarrow> prefix t (snd (k x u))"
  shows "prefix t (snd (and_then r k))"
proof (cases r)
  case (Pair res u)
  with assms show ?thesis by (cases res) (auto simp: and_then_def)
qed

lemma try_catch_grows [grows]:
  assumes "prefix t (snd r)" and "\<And>u. prefix t u \<Longrightarrow> prefix t (snd (h u))"
  shows "prefix t (snd (try_catch r h))"
proof (cases r)
  case (Pair res u)
  with assms show ?thesis by (cases res) (auto simp: try_catch_def)
qed

lemma readEnvFile_grows [grows]: "prefix t u \<Longrightarrow> prefix t (snd (readEnvFile E p u))"
  by (cases "x_text E u p") (auto simp: readEnvFile_some readEnvFile_none prefix_def)

lemma addVercelEnvVar_grows: "prefix t u \<Longrightarrow> prefix t (snd (addVercelEnvVar E n v es u))"
proof -
  assume p: "prefix t u"
  from addVercelEnvVar_shape[of E n v es u] obtain tr b where
    "addVercelEnvVar E n v es u = (Ret b, u @ tr)" by blast
  with p show ?thesis by simp
qed

lemma step1_grows: "prefix t u \<Longrightarrow> prefix t (snd (step1_template E n p u))"
  unfolding step1_template_def by (intro grows)

lemma step2_grows: "prefix t u \<Longrightarrow> prefix t (snd (step2_nitro E u))"
  unfolding step2_nitro_def by (intro grows) (simp_all add: log_grows)

lemma step3_grows: "prefix t u \<Longrightarrow> prefix t (snd (step3_vite E u))"
  unfolding step3_vite_def by (intro grows) (simp_all add: log_grows)

lemma step4_grows: "prefix t u \<Longrightarrow> prefix t (snd (step4_vercel_json E u))"
  unfolding step4_vercel_json_def by (intro grows) (simp_all add: log_grows)

lemma step5_grows: "prefix t u \<Longrightarrow> prefix t (snd (step5_scripts E u))"
proof -
  assume p: "prefix t u"
  have "prefix t (snd (case patch_scripts pkg of
        Throw \<Rightarrow> (Throw, t1)
      | Exit n \<Rightarrow> (Exit n, t1)
      | Ret pkg' \<Rightarrow>
          and_then (bun_write E (lit ''package.json'') (JSON_stringify2 pkg' @ [10]) t1) (\<lambda>u t2.
          (Ret (), console_log (c_success (lit ''package.json updated'')) t2))))"
    if "prefix t t1" for pkg t1
    using that by (cases "patch_scripts pkg") (auto intro!: grows)
  with p show ?thesis
    unfolding step5_scripts_def by (intro grows)
qed

lemma step6_grows: "prefix t u \<Longrightarrow> prefix t (snd (step6_install E u))"
  unfolding step6_install_def by (intro grows) (simp_all add: log_grows)

lemma step7_grows: "prefix t u \<Longrightarrow> prefix t (snd (step7_git E u))"
  unfolding step7_git_def by (intro grows) (simp_all add: log_grows)

lemma step8_grows: "prefix t u \<Longrightarrow> prefix t (snd (step8_github E n u))"
  unfolding step8_github_def by (intro grows) (simp_all add: log_grows)

lemma step9_grows: "prefix t u \<Longrightarrow> prefix t (snd (step9_convex E u))"
  unfolding step9_convex_def by (intro grows) (simp_all add: log_grows Let_def)

lemma step10_grows: "prefix t u \<Longrightarrow> prefix t (snd (step10_deploy_key E u))"
  unfolding step10_deploy_key_def by (intro grows)

lemma step11_grows: "prefix t u \<Longrightarrow> prefix t (snd (step11_link E u))"
  unfolding step11_link_def by (intro grows) (simp_all add: log_grows)

lemma step12_url_grows: "prefix t u \<Longrightarrow> prefix t (step12_url E url u)"
proof (cases "url = []")
  case True
  then show "prefix t u \<Longrightarrow> ?thesis" by (simp add: step12_url_def log_grows)
next
  case False
  from step12_url_shape[OF False, of E u] obtain v where "step12_url E url u = u @ v"
    by auto
  then show "prefix t u \<Longrightarrow> ?thesis" by simp
qed

lemma step12_key_grows: "prefix t u \<Longrightarrow> prefix t (step12_key E n key u)"
proof (cases "key = []")
  case True
  then show "prefix t u \<Longrightarrow> ?thesis" by (simp add: step12_key_def log_grows)
next
  case False
  from step12_key_shape[OF False, of E n u] obtain v where "step12_key E n key u = u @ v"
    by auto
  then show "prefix t u \<Longrightarrow> ?thesis" by simp
qed

lemma step12_grows: "prefix t u \<Longrightarrow> prefix t (step12_env E n url key linked u)"
  by (simp add: step12_env_def step12_key_grows step12_url_grows log_grows)

lemma complete_grows: "prefix t u \<Longrightarrow> prefix t (complete n p u)"
  by (simp add: complete_def log_grows)

lemma createProject_grows: "prefix t u \<Longrightarrow> prefix t (snd (createProject E n u))"
proof -
  assume p: "prefix t u"
  let ?p = "x_resolve E [x_cwd E u, n]"
  have e: "prefix t (u @ [Exists ?p (x_exists E u ?p)])"
    using p by (auto simp: prefix_def)
  show ?thesis
  proof (cases "x_exists E u ?p")
    case True
    with e show ?thesis
      by (simp add: createProject_def existsSync_def Let_def log_grows)
  next
    case False
    with e show ?thesis
      by (simp add: createProject_def existsSync_def Let_def)
         (intro grows step1_grows step2_grows step3_grows step4_grows step5_grows step6_grows
           step7_grows step8_grows step9_grows step10_grows step11_grows,
          simp_all add: complete_grows step12_grows)
  qed
qed

section \<open>The name gate of main\<close>

lemma checkBun_grows: "prefix t u \<Longrightarrow> prefix t (snd (checkBun E u))"
  using checkBun_ret[of E u] by (auto intro: prefix_order.trans)

lemma checkGitHub_grows: "prefix t u \<Longrightarrow> prefix t (snd (checkGitHub E u))"
  using checkGitHub_ret[of E u] by (auto intro: prefix_order.trans)

lemma checkConvex_grows: "prefix t u \<Longrightarrow> prefix t (snd (checkConvex E u))"
  using checkConvex_ret[of E u] by (auto intro: prefix_order.trans)

lemma checkVercel_grows: "prefix t u \<Longrightarrow> prefix t (snd (checkVercel E u))"
  using checkVercel_ret[of E u] by (auto intro: prefix_order.trans)

lemma report_grows:
  "prefix t u \<Longrightarrow> prefix t (snd (report_bun r (g, u)))"
  "prefix t u \<Longrightarrow> prefix t (snd (report_gh r (g, u)))"
  "prefix t u \<Longrightarrow> prefix t (snd (report_convex r (g, u)))"
  "prefix t u \<Longrightarrow> prefix t (snd (report_vercel r (g, u)))"
  by (simp_all add: report_bun_def report_gh_def report_convex_def report_vercel_def log_grows)

lemma report_all_grows: "prefix t (snd s) \<Longrightarrow> prefix t (snd (report_all s))"
  by (cases s) (simp add: report_all_def log_grows)

lemma checkAllPrerequisites_grows:
  assumes "prefix t u"
  shows "prefix t (snd (checkAllPrerequisites E u))"
proof -
  have 4: "prefix t (snd (report_all (report_vercel vercel (g, u4))))"
    if "prefix t u4" for vercel g u4
    using that by (intro report_all_grows report_grows)
  have 3: "prefix t (snd (case report_convex convex (g, u3) of (allGood3, t3') \<Rightarrow>
       and_then (checkVercel E (console_log (c_info (lit ''Checking Vercel CLI...'')) t3'))
         (\<lambda>vercel t4. report_all (report_vercel vercel (allGood3, t4)))))"
    if "prefix t u3" for convex g u3
  proof (cases "report_convex convex (g, u3)")
    case (Pair a b)
    with report_grows(3)[OF that, of convex g] have "prefix t b" by simp
    with Pair show ?thesis by (auto intro!: grows checkVercel_grows 4)
  qed
  have 2: "prefix t (snd (case report_gh gh (g, u2) of (allGood2, t2') \<Rightarrow>
       and_then (checkConvex E (console_log (c_info (lit ''Checking Convex CLI...'')) t2'))
         (\<lambda>convex t3. (case report_convex convex (allGood2, t3) of (allGood3, t3') \<Rightarrow>
       and_then (checkVercel E (console_log (c_info (lit ''Checking Vercel CLI...'')) t3'))
         (\<lambda>vercel t4. report_all (report_vercel vercel (allGood3, t4)))))))"
    if "prefix t u2" for gh g u2
  proof (cases "report_gh gh (g, u2)")
    case (Pair a b)
    with report_grows(2)[OF that, of gh g] have "prefix t b" by simp
    with Pair show ?thesis by (auto intro!: grows checkConvex_grows 3)
  qed
  have 1: "prefix t (snd (case report_bun bun (g, u1) of (allGood1, t1') \<Rightarrow>
       and_then (checkGitHub E (console_log (c_info (lit ''Checking GitHub CLI (gh)...'')) t1'))
         (\<lambda>gh t2. (case report_gh gh (allGood1, t2) of (allGood2, t2') \<Rightarrow>
       and_then (checkConvex E (console_log (c_info (lit ''Checking Convex CLI...'')) t2'))
         (\<lambda>convex t3. (case report_convex convex (allGood2, t3) of (allGood3, t3') \<Rightarrow>
       and_then (checkVercel E (console_log (c_info (lit ''Checking Vercel CLI...'')) t3'))
         (\<lambda>vercel t4. report_all (report_vercel vercel (allGood3, t4)))))))))"
    if "prefix t u1" for bun g u1
  proof (cases "report_bun bun (g, u1)")
    case (Pair a b)
    with report_grows(1)[OF that, of bun g] have "prefix t b" by simp
    with Pair show ?thesis by (auto intro!: grows checkGitHub_grows 2)
  qed
  show ?thesis
    unfolding checkAllPrerequisites_def
    using assms by (intro and_then_grows checkBun_grows log_grows 1)
qed

text \<open>
  C7, as the code has it. When no help flag is given: a project name that passes the
  test of the regular expression lets the run go on (the bootstrap header is printed);
  a name that fails it ends the run with status 1 after the one line of the error; a
  missing or empty name ends it with status 1 after the usage text. When a help flag is
  given the name is not tested: the usage text is printed and the status is 0 if a name
  that is not empty is present, and 1 otherwise. Nothing else happens before the exit.
\<close>

theorem main_name_gate:
  "(\<not> show_help args \<longrightarrow>
      (case project_arg args of
         Some n \<Rightarrow>
           if name_test n then
             prefix (t @ [Log msg_bootstrap, Log (lit ''  Project: '' @ n @ [10])])
               (snd (main E args t))
           else
             main E args t = (Exit 1, t @ [Log (if n = [] then help_text else msg_invalid_name)])
       | None \<Rightarrow> main E args t = (Exit 1, t @ [Log help_text])))
   \<and> (show_help args \<longrightarrow>
        main E args t = (Exit (if given (project_arg args) then 0 else 1), t @ [Log help_text]))"
proof (intro conjI impI)
  assume "show_help args"
  then show "main E args t = (Exit (if given (project_arg args) then 0 else 1), t @ [Log help_text])"
    by (simp add: main_def console_log_def)
next
  assume h: "\<not> show_help args"
  show "case project_arg args of
          Some n \<Rightarrow>
            if name_test n then
              prefix (t @ [Log msg_bootstrap, Log (lit ''  Project: '' @ n @ [10])])
                (snd (main E args t))
            else
              main E args t = (Exit 1, t @ [Log (if n = [] then help_text else msg_invalid_name)])
        | None \<Rightarrow> main E args t = (Exit 1, t @ [Log help_text])"
  proof (cases "project_arg args")
    case None
    then show ?thesis by (simp add: main_def given_def console_log_def)
  next
    case (Some n)
    show ?thesis
    proof (cases "name_test n")
      case False
      with Some h show ?thesis
        by (simp add: main_def given_def console_log_def)
    next
      case True
      then have n: "n \<noteq> []" by (auto simp: name_test_def)
      let ?t1 = "t @ [Log msg_bootstrap, Log (lit ''  Project: '' @ n @ [10])]"
      have c: "prefix ?t1 (snd (createProject E n u))" if "prefix ?t1 u" for u
        using that by (rule createProject_grows)
      have "prefix ?t1 (snd (and_then (checkAllPrerequisites E ?t1)
              (\<lambda>ok t2. if \<not> ok then (Exit 1, t2) else createProject E n t2)))"
        by (intro and_then_grows checkAllPrerequisites_grows) (auto intro: c)
      moreover have "prefix ?t1 (snd (createProject E n ?t1))"
        by (intro c) simp
      ultimately show ?thesis
        using Some True n h by (simp add: main_def given_def console_log_def Let_def)
    qed
  qed
qed

lemmas main_eval =
  main_def show_help_def skip_checks_def project_arg_def given_def startsWith_def name_test_def
  is_letter_def is_name_unit_def console_log_def

text \<open>
  C7, the claim as stated fails. With a help flag the name is never tested: the usage
  text is printed and the exit status is 0 for the name \<^verbatim>\<open>9bad\<close>, which does not match.
\<close>

theorem main_help_exits_zero:
  "main (demo_ext all_work None None False []) [lit ''--help'', lit ''9bad''] []
     = (Exit 0, [Log help_text])
   \<and> \<not> name_test (lit ''9bad'')"
  by (simp add: main_eval lit_def)

theorem main_name_gate_witness:
  "\<not> show_help [lit ''9bad'']
   \<and> main (demo_ext all_work None None False []) [lit ''9bad''] [] = (Exit 1, [Log msg_invalid_name])
   \<and> \<not> show_help [lit ''--skip-checks'', lit ''myapp'']
   \<and> prefix [Log msg_bootstrap, Log (lit ''  Project: '' @ lit ''myapp'' @ [10])]
        (snd (main (demo_ext all_work None None False []) [lit ''--skip-checks'', lit ''myapp''] []))
   \<and> show_help [lit ''-h'', lit ''myapp'']
   \<and> main (demo_ext all_work None None False []) [lit ''-h'', lit ''myapp''] []
       = (Exit 0, [Log help_text])"
proof -
  have h1: "\<not> show_help [lit ''9bad'']"
    by (simp add: show_help_def lit_def)
  have h2: "\<not> show_help [lit ''--skip-checks'', lit ''myapp'']"
    by (simp add: show_help_def lit_def)
  have h3: "show_help [lit ''-h'', lit ''myapp'']"
    by (simp add: show_help_def lit_def)
  have p1: "project_arg [lit ''9bad''] = Some (lit ''9bad'')"
    by (simp add: project_arg_def startsWith_def lit_def)
  have p2: "project_arg [lit ''--skip-checks'', lit ''myapp''] = Some (lit ''myapp'')"
    by (simp add: project_arg_def startsWith_def lit_def)
  have p3: "given (project_arg [lit ''-h'', lit ''myapp''])"
    by (simp add: given_def project_arg_def startsWith_def lit_def)
  have n1: "\<not> name_test (lit ''9bad'')" "lit ''9bad'' \<noteq> []"
    by (simp_all add: name_test_def is_letter_def lit_def)
  have n2: "name_test (lit ''myapp'')"
    by (simp add: name_test_def is_letter_def is_name_unit_def lit_def)
  from main_name_gate[where args = "[lit ''9bad'']" and t = "[]"
        and E = "demo_ext all_work None None False []"]
    main_name_gate[where args = "[lit ''--skip-checks'', lit ''myapp'']" and t = "[]"
        and E = "demo_ext all_work None None False []"]
    main_name_gate[where args = "[lit ''-h'', lit ''myapp'']" and t = "[]"
        and E = "demo_ext all_work None None False []"]
    h1 h2 h3
  show ?thesis by (simp add: p1 p2 p3 n1 n2)
qed

theorem manifest_patch_witness:
  "map_of [(lit ''name'', JStr (lit ''app'')),
           (lit ''scripts'', JObj [(lit ''dev'', JStr (lit ''old''))]),
           (lit ''private'', JBool True)] (lit ''scripts'')
     = Some (JObj [(lit ''dev'', JStr (lit ''old''))])
   \<and> snd (step5_scripts (demo_ext all_work None (Some manifest_sample) False []) [])
     = [Log (c_header (lit ''Updating Scripts for Bun'')),
        Log (c_info (lit ''Patching package.json scripts...'')),
        ReadJson (lit ''package.json'') (Some manifest_sample),
        Wrote (lit ''package.json'') manifest_text True,
        Log (c_success (lit ''package.json updated''))]"
proof -
  have h1: "map_of [(lit ''name'', JStr (lit ''app'')),
           (lit ''scripts'', JObj [(lit ''dev'', JStr (lit ''old''))]),
           (lit ''private'', JBool True)] (lit ''scripts'')
     = Some (JObj [(lit ''dev'', JStr (lit ''old''))])"
    by (simp add: lit_def)
  have h2: "x_json (demo_ext all_work None (Some manifest_sample) False [])
              (console_log (c_info (lit ''Patching package.json scripts...''))
                (console_log (c_header (lit ''Updating Scripts for Bun'')) []))
              (lit ''package.json'')
            = Some (JObj [(lit ''name'', JStr (lit ''app'')),
                          (lit ''scripts'', JObj [(lit ''dev'', JStr (lit ''old''))]),
                          (lit ''private'', JBool True)])"
    by (simp add: demo_ext_def manifest_sample_def)
  have p: "patch_scripts manifest_sample =
             Ret (JObj [(lit ''name'', JStr (lit ''app'')),
                        (lit ''scripts'', JObj [(lit ''dev'', JStr script_dev),
                                               (lit ''dev:convex'', JStr script_dev_convex),
                                               (lit ''start'', JStr script_start)]),
                        (lit ''private'', JBool True)])"
    by (simp add: patch_scripts_def set_script_def get_prop_def set_prop_def manifest_sample_def
        lit_def)
  have s: "JSON_stringify2 (JObj [(lit ''name'', JStr (lit ''app'')),
                        (lit ''scripts'', JObj [(lit ''dev'', JStr script_dev),
                                               (lit ''dev:convex'', JStr script_dev_convex),
                                               (lit ''start'', JStr script_start)]),
                        (lit ''private'', JBool True)]) @ [10] = manifest_text"
    by (simp add: JSON_stringify2_def manifest_text_def nl_lines_def json_quote_def
        script_dev_def script_dev_convex_def script_start_def is_lead_def is_trail_def lit_def)
  have e: "snd (step5_scripts (demo_ext all_work None (Some manifest_sample) False []) [])
     = [Log (c_header (lit ''Updating Scripts for Bun'')),
        Log (c_info (lit ''Patching package.json scripts...'')),
        ReadJson (lit ''package.json'') (Some manifest_sample),
        Wrote (lit ''package.json'') manifest_text True,
        Log (c_success (lit ''package.json updated''))]"
    by (simp add: step5_scripts_def file_json_def and_then_def bun_write_def console_log_def
        demo_ext_def p s)
  from manifest_patch[OF h1 h2] h1 e show ?thesis by blast
qed

end
